theory Spec2Isabelle
  imports Main
begin

section \<open>JavaScript values\<close>

text \<open>
  The deletion helpers of \<^verbatim>\<open>server/utils/fileUtils.js\<close> test their argument with
  \<^verbatim>\<open>x && typeof x === "string"\<close> and \<^verbatim>\<open>Array.isArray\<close>, so their arguments are
  dynamically typed values. Numbers are integers here (no NaN, no fractions).
\<close>

datatype jsval =
    JUndefined
  | JNull
  | JBool bool
  | JNum int
  | JStr string
  | JArray "jsval list"

fun truthy :: "jsval \<Rightarrow> bool" where
  "truthy JUndefined = False"
| "truthy JNull = False"
| "truthy (JBool b) = b"
| "truthy (JNum n) = (n \<noteq> 0)"
| "truthy (JStr s) = (s \<noteq> [])"
| "truthy (JArray xs) = True"

fun is_string :: "jsval \<Rightarrow> bool" where
  "is_string (JStr s) = True"
| "is_string v = False"

text \<open>An optional string parameter (\<^verbatim>\<open>undefined\<close> or a string) is falsy when it is
  absent or empty.\<close>

fun falsy :: "string option \<Rightarrow> bool" where
  "falsy None = True"
| "falsy (Some s) = (s = [])"

text \<open>Template-literal rendering of the values the module interpolates.\<close>

fun show_nat :: "nat \<Rightarrow> string" where
  "show_nat n =
     (if n < 10 then [char_of (48 + n)]
      else show_nat (n div 10) @ [char_of (48 + n mod 10)])"

declare show_nat.simps [simp del]

fun show_opt :: "string option \<Rightarrow> string" where
  "show_opt None = ''undefined''"
| "show_opt (Some s) = s"

fun join_with :: "string \<Rightarrow> string list \<Rightarrow> string" where
  "join_with sep [] = []"
| "join_with sep [x] = x"
| "join_with sep (x # y # ys) = x @ sep @ join_with sep (y # ys)"

section \<open>Node's path module (POSIX flavour)\<close>

text \<open>
  \<^verbatim>\<open>path.join\<close> and \<^verbatim>\<open>path.dirname\<close> are library functions the module calls; they are
  modelled after Node's POSIX implementation: \<^verbatim>\<open>join\<close> glues the non-empty arguments with
  a slash and normalises (\<^verbatim>\<open>.\<close> and empty segments dropped, \<^verbatim>\<open>..\<close> resolved, a trailing
  slash kept); \<^verbatim>\<open>dirname\<close> cuts the last segment.
\<close>

fun split_slash :: "string \<Rightarrow> string list" where
  "split_slash [] = [[]]"
| "split_slash (c # cs) =
     (if c = CHR ''/'' then [] # split_slash cs
      else (case split_slash cs of
              [] \<Rightarrow> [[c]]
            | seg # segs \<Rightarrow> (c # seg) # segs))"

text \<open>\<open>norm_segs allowAbove acc segs\<close>: the accumulator holds the kept segments, last one
  first; \<open>allowAbove\<close> is Node's \<^verbatim>\<open>allowAboveRoot\<close> (true for relative paths).\<close>

fun norm_segs :: "bool \<Rightarrow> string list \<Rightarrow> string list \<Rightarrow> string list" where
  "norm_segs allowAbove acc [] = rev acc"
| "norm_segs allowAbove acc (seg # segs) =
     (if seg = [] \<or> seg = ''.'' then norm_segs allowAbove acc segs
      else if seg = ''..'' then
        (case acc of
           [] \<Rightarrow> norm_segs allowAbove (if allowAbove then [''..''] else []) segs
         | a # acc' \<Rightarrow>
             if a = ''..''
             then norm_segs allowAbove (if allowAbove then ''..'' # acc else acc) segs
             else norm_segs allowAbove acc' segs)
      else norm_segs allowAbove (seg # acc) segs)"

definition path_normalize :: "string \<Rightarrow> string" where
  "path_normalize p =
     (if p = [] then ''.''
      else
        let isAbsolute = (hd p = CHR ''/'');
            trailingSeparator = (last p = CHR ''/'');
            body = join_with ''/'' (norm_segs (\<not> isAbsolute) [] (split_slash p))
        in if body = [] then
             (if isAbsolute then ''/'' else if trailingSeparator then ''./'' else ''.'')
           else (if isAbsolute then ''/'' else []) @ body
                  @ (if trailingSeparator then ''/'' else []))"

definition path_join :: "string \<Rightarrow> string \<Rightarrow> string" where
  "path_join a b =
     (let joined = (if a = [] then b else if b = [] then a else a @ ''/'' @ b)
      in if joined = [] then ''.'' else path_normalize joined)"

definition path_dirname :: "string \<Rightarrow> string" where
  "path_dirname p =
     (if p = [] then ''.''
      else
        let hasRoot = (hd p = CHR ''/'');
            r = dropWhile (\<lambda>c. c \<noteq> CHR ''/'')
                  (dropWhile (\<lambda>c. c = CHR ''/'') (rev (tl p)))
        in if r = [] then (if hasRoot then ''/'' else ''.'')
           else if hasRoot \<and> length r = 1 then ''//''
           else take (length r) p)"

text \<open>The shape of a normalised segment list, used to relate nested joins to a single
  join: a plain segment is a name (not empty, not \<^verbatim>\<open>.\<close>, not \<^verbatim>\<open>..\<close>, no slash); an
  accumulator of \<open>norm_segs\<close> holds plain segments on top of leading \<^verbatim>\<open>..\<close> segments,
  which only relative paths keep.\<close>

definition plain :: "string \<Rightarrow> bool" where
  "plain s = (s \<noteq> [] \<and> s \<noteq> ''.'' \<and> s \<noteq> ''..'' \<and> CHR ''/'' \<notin> set s)"

definition shaped :: "bool \<Rightarrow> string list \<Rightarrow> bool" where
  "shaped ab acc = (\<exists>k r. acc = r @ replicate k ''..'' \<and> (\<forall>s\<in>set r. plain s) \<and> (\<not> ab \<longrightarrow> k = 0))"

section \<open>The host: file system, console, image library\<close>

text \<open>
  The module only ever asks whether something exists at a path, creates directories,
  unlinks, lists, removes directories and reads a size. The file system is therefore a
  finite table from resolved paths (segment lists from the root) to the size of the entry
  there. The code never asks whether an entry is a file or a directory, and neither does
  the table; failures that depend on the kind of an entry (EISDIR, ENOTDIR) are among the
  faults the environment may inject. One call runs at a time: no other process touches the
  table between two steps of a call.
\<close>

type_synonym filesystem = "(string list \<times> nat) list"

definition exists_entry :: "filesystem \<Rightarrow> string list \<Rightarrow> bool" where
  "exists_entry fs k = (k = [] \<or> k \<in> set (map fst fs))"

definition remove_entry :: "filesystem \<Rightarrow> string list \<Rightarrow> filesystem" where
  "remove_entry fs k = filter (\<lambda>e. fst e \<noteq> k) fs"

definition add_entry :: "filesystem \<Rightarrow> string list \<Rightarrow> nat \<Rightarrow> filesystem" where
  "add_entry fs k n = (k, n) # remove_entry fs k"

definition ensure_entry :: "filesystem \<Rightarrow> string list \<Rightarrow> filesystem" where
  "ensure_entry fs k = (if exists_entry fs k then fs else (k, 0) # fs)"

definition mkdir_p :: "filesystem \<Rightarrow> string list \<Rightarrow> filesystem" where
  "mkdir_p fs k = foldl ensure_entry fs (map (\<lambda>n. take n k) [1..<Suc (length k)])"

definition children :: "filesystem \<Rightarrow> string list \<Rightarrow> string list" where
  "children fs k = map (\<lambda>e. last (fst e)) (filter (\<lambda>e. fst e \<noteq> [] \<and> butlast (fst e) = k) fs)"

definition size_of :: "filesystem \<Rightarrow> string list \<Rightarrow> nat" where
  "size_of fs k = (case map_of fs k of None \<Rightarrow> 0 | Some n \<Rightarrow> n)"

text \<open>Path resolution by the operating system: the empty path names nothing; a relative
  path starts at the working directory; \<^verbatim>\<open>..\<close> at the root stays at the root.\<close>

definition resolve :: "string list \<Rightarrow> string \<Rightarrow> string list option" where
  "resolve wd p =
     (if p = [] then None
      else Some (norm_segs False [] ((if hd p = CHR ''/'' then [] else wd) @ split_slash p)))"

datatype call =
    MkdirSync string bool
  | UnlinkSync string
  | Unlink string
  | Stat string
  | Readdir string
  | Rmdir string
  | SharpMetadata "string option"
  | SharpToFile "string option" nat nat nat string

datatype errno = ENOENT | EEXIST | ENOTEMPTY | EPERM | EACCES | EIO | EISDIR | ENOTDIR

datatype error =
    Error string
  | SystemError errno call

text \<open>Every library call that can fail or change the file system leaves an event: the
  call, the file system it found, and the error it raised, if any.\<close>

record event =
  op :: call
  before :: filesystem
  raised :: "error option"

datatype write_outcome =
    Written nat
  | Failed string
  | FailedPartial nat string

record image_info =
  md_width :: nat
  md_height :: nat
  md_format :: string

datatype level = LOG | ERROR

type_synonym log_entry = "level \<times> string \<times> error option"

text \<open>
  The world a call runs in. \<open>fault\<close>, \<open>image_of\<close> and \<open>encode\<close> are the environment's
  choices: given the history of events so far, whether a file-system call fails beyond
  the failures the table itself forces, what the image library reads from an input, and
  how an encode-and-write ends. \<open>UPLOAD_DIR\<close> is \<^verbatim>\<open>process.env.UPLOAD_DIR\<close>;
  \<open>TEMP_PHOTOS_DIR\<close> comes from the configuration module.
\<close>

record world =
  files :: filesystem
  cwd :: "string list"
  console :: "log_entry list"
  trace :: "event list"
  fault :: "event list \<Rightarrow> call \<Rightarrow> errno option"
  image_of :: "event list \<Rightarrow> string option \<Rightarrow> string + image_info"
  encode :: "event list \<Rightarrow> call \<Rightarrow> write_outcome"
  UPLOAD_DIR :: "string option"
  TEMP_PHOTOS_DIR :: string

definition console_log :: "string \<Rightarrow> world \<Rightarrow> world" where
  "console_log m w = w\<lparr>console := console w @ [(LOG, m, None)]\<rparr>"

definition console_error :: "string \<Rightarrow> error option \<Rightarrow> world \<Rightarrow> world" where
  "console_error m e w = w\<lparr>console := console w @ [(ERROR, m, e)]\<rparr>"

definition log_event :: "call \<Rightarrow> error option \<Rightarrow> world \<Rightarrow> world" where
  "log_event c e w = w\<lparr>trace := trace w @ [\<lparr>op = c, before = files w, raised = e\<rparr>]\<rparr>"

text \<open>A file-system call: it fails with the error the table forces (\<open>forced\<close>), else with
  the fault the environment injects, else it takes effect.\<close>

definition fs_call ::
  "call \<Rightarrow> errno option \<Rightarrow> (filesystem \<Rightarrow> filesystem) \<Rightarrow> world \<Rightarrow> error option \<times> world" where
  "fs_call c forced effect w =
     (case (case forced of Some e \<Rightarrow> Some e | None \<Rightarrow> fault w (trace w) c) of
        Some e \<Rightarrow> (Some (SystemError e c), log_event c (Some (SystemError e c)) w)
      | None \<Rightarrow> (None, (log_event c None w)\<lparr>files := effect (files w)\<rparr>))"

definition existsSync :: "world \<Rightarrow> string \<Rightarrow> bool" where
  "existsSync w p =
     (case resolve (cwd w) p of None \<Rightarrow> False | Some k \<Rightarrow> exists_entry (files w) k)"

definition mkdirSync :: "world \<Rightarrow> string \<Rightarrow> bool \<Rightarrow> error option \<times> world" where
  "mkdirSync w p recursive =
     (case resolve (cwd w) p of
        None \<Rightarrow> fs_call (MkdirSync p recursive) (Some ENOENT) id w
      | Some k \<Rightarrow>
          if recursive then fs_call (MkdirSync p recursive) None (\<lambda>fs. mkdir_p fs k) w
          else if exists_entry (files w) k then fs_call (MkdirSync p recursive) (Some EEXIST) id w
          else if \<not> exists_entry (files w) (butlast k)
            then fs_call (MkdirSync p recursive) (Some ENOENT) id w
          else fs_call (MkdirSync p recursive) None (\<lambda>fs. add_entry fs k 0) w)"

definition unlink_as :: "call \<Rightarrow> world \<Rightarrow> string \<Rightarrow> error option \<times> world" where
  "unlink_as c w p =
     (case resolve (cwd w) p of
        None \<Rightarrow> fs_call c (Some ENOENT) id w
      | Some k \<Rightarrow>
          if k = [] then fs_call c (Some EISDIR) id w
          else if \<not> exists_entry (files w) k then fs_call c (Some ENOENT) id w
          else fs_call c None (\<lambda>fs. remove_entry fs k) w)"

definition unlinkSync :: "world \<Rightarrow> string \<Rightarrow> error option \<times> world" where
  "unlinkSync w p = unlink_as (UnlinkSync p) w p"

definition unlink :: "world \<Rightarrow> string \<Rightarrow> error option \<times> world" where
  "unlink w p = unlink_as (Unlink p) w p"

definition rmdir :: "world \<Rightarrow> string \<Rightarrow> error option \<times> world" where
  "rmdir w p =
     (case resolve (cwd w) p of
        None \<Rightarrow> fs_call (Rmdir p) (Some ENOENT) id w
      | Some k \<Rightarrow>
          if k = [] then fs_call (Rmdir p) (Some EPERM) id w
          else if \<not> exists_entry (files w) k then fs_call (Rmdir p) (Some ENOENT) id w
          else if children (files w) k \<noteq> [] then fs_call (Rmdir p) (Some ENOTEMPTY) id w
          else fs_call (Rmdir p) None (\<lambda>fs. remove_entry fs k) w)"

definition readdir :: "world \<Rightarrow> string \<Rightarrow> (error + string list) \<times> world" where
  "readdir w p =
     (let forced = (case resolve (cwd w) p of
                      None \<Rightarrow> Some ENOENT
                    | Some k \<Rightarrow> if exists_entry (files w) k then None else Some ENOENT)
      in case fs_call (Readdir p) forced id w of
           (Some e, w') \<Rightarrow> (Inl e, w')
         | (None, w') \<Rightarrow>
             (Inr (case resolve (cwd w) p of None \<Rightarrow> [] | Some k \<Rightarrow> children (files w) k), w'))"

definition stat_size :: "world \<Rightarrow> string \<Rightarrow> (error + nat) \<times> world" where
  "stat_size w p =
     (let forced = (case resolve (cwd w) p of
                      None \<Rightarrow> Some ENOENT
                    | Some k \<Rightarrow> if exists_entry (files w) k then None else Some ENOENT)
      in case fs_call (Stat p) forced id w of
           (Some e, w') \<Rightarrow> (Inl e, w')
         | (None, w') \<Rightarrow>
             (Inr (case resolve (cwd w) p of None \<Rightarrow> 0 | Some k \<Rightarrow> size_of (files w) k), w'))"

text \<open>\<^verbatim>\<open>sharp(input).metadata()\<close>: reads, never writes.\<close>

definition sharp_metadata :: "world \<Rightarrow> string option \<Rightarrow> (error + image_info) \<times> world" where
  "sharp_metadata w input =
     (case image_of w (trace w) input of
        Inl msg \<Rightarrow> (Inl (Error msg), log_event (SharpMetadata input) (Some (Error msg)) w)
      | Inr info \<Rightarrow> (Inr info, log_event (SharpMetadata input) None w))"

text \<open>\<^verbatim>\<open>sharp(input).resize(w, h, ...).webp({quality}).toFile(output)\<close>: on success the
  output exists; a failure may leave a partly written output behind.\<close>

definition sharp_toFile ::
  "world \<Rightarrow> string option \<Rightarrow> nat \<Rightarrow> nat \<Rightarrow> nat \<Rightarrow> string \<Rightarrow> error option \<times> world" where
  "sharp_toFile w input wd ht q output =
     (let c = SharpToFile input wd ht q output in
      case resolve (cwd w) output of
        None \<Rightarrow> (Some (SystemError ENOENT c), log_event c (Some (SystemError ENOENT c)) w)
      | Some k \<Rightarrow>
          (case encode w (trace w) c of
             Written n \<Rightarrow> (None, (log_event c None w)\<lparr>files := add_entry (files w) k n\<rparr>)
           | Failed msg \<Rightarrow> (Some (Error msg), log_event c (Some (Error msg)) w)
           | FailedPartial n msg \<Rightarrow>
               (Some (Error msg),
                (log_event c (Some (Error msg)) w)\<lparr>files := add_entry (files w) k n\<rparr>)))"

section \<open>Directory provisioning\<close>

text \<open>\<^verbatim>\<open>ensureDir(dirPath)\<close>: no try/catch, so a failing \<^verbatim>\<open>mkdirSync\<close> propagates.\<close>

definition ensureDir :: "world \<Rightarrow> string \<Rightarrow> (error + string) \<times> world" where
  "ensureDir w dirPath =
     (if \<not> existsSync w dirPath then
        (case mkdirSync w dirPath True of
           (Some e, w') \<Rightarrow> (Inl e, w')
         | (None, w') \<Rightarrow> (Inr dirPath, w'))
      else (Inr dirPath, w))"

record dir_options =
  silent :: "bool option"
  recursive :: "bool option"

record stats =
  created :: nat
  existing :: nat
  failed :: nat

text \<open>The body of the \<^verbatim>\<open>try\<close> inside the loop of \<^verbatim>\<open>ensureDirectoriesExist\<close>.\<close>

definition ensure_try ::
  "bool \<Rightarrow> bool \<Rightarrow> string \<Rightarrow> stats \<times> world \<Rightarrow> (error + unit) \<times> stats \<times> world" where
  "ensure_try quiet recur dir sw =
     (case sw of (st, w) \<Rightarrow>
        if \<not> existsSync w dir then
          (case mkdirSync w dir recur of
             (Some e, w') \<Rightarrow> (Inl e, st, w')
           | (None, w') \<Rightarrow>
               (Inr (), st\<lparr>created := created st + 1\<rparr>,
                if \<not> quiet then console_log (''Created directory: '' @ dir) w' else w'))
        else
          (Inr (), st\<lparr>existing := existing st + 1\<rparr>,
           if \<not> quiet then console_log (''Directory already exists: '' @ dir) w else w))"

text \<open>One iteration: the \<^verbatim>\<open>try\<close> and its \<^verbatim>\<open>catch\<close>.\<close>

definition ensure_iter ::
  "bool \<Rightarrow> bool \<Rightarrow> string \<Rightarrow> stats \<times> world \<Rightarrow> (error + unit) \<times> stats \<times> world" where
  "ensure_iter quiet recur dir sw =
     (case ensure_try quiet recur dir sw of
        (Inl e, st, w) \<Rightarrow>
          (Inr (), st\<lparr>failed := failed st + 1\<rparr>,
           if \<not> quiet then console_error (''Failed to create directory: '' @ dir) (Some e) w
           else w)
      | (Inr u, st, w) \<Rightarrow> (Inr u, st, w))"

fun ensure_loop ::
  "bool \<Rightarrow> bool \<Rightarrow> string list \<Rightarrow> stats \<times> world \<Rightarrow> (error + unit) \<times> stats \<times> world" where
  "ensure_loop quiet recur [] sw = (Inr (), sw)"
| "ensure_loop quiet recur (dir # dirs) sw =
     (case ensure_iter quiet recur dir sw of
        (Inl e, sw') \<Rightarrow> (Inl e, sw')
      | (Inr u, sw') \<Rightarrow> ensure_loop quiet recur dirs sw')"

definition ensureDirectoriesExist ::
  "world \<Rightarrow> string list \<Rightarrow> dir_options \<Rightarrow> (error + stats) \<times> world" where
  "ensureDirectoriesExist w directories options =
     (let quiet = (case silent options of None \<Rightarrow> False | Some b \<Rightarrow> b);
          recur = (case recursive options of None \<Rightarrow> True | Some b \<Rightarrow> b);
          st0 = \<lparr>created = 0, existing = 0, failed = 0\<rparr>;
          w0 = (if \<not> quiet then console_log ''Ensuring required directories exist...'' w else w)
      in case ensure_loop quiet recur directories (st0, w0) of
           (Inl e, st, w1) \<Rightarrow> (Inl e, w1)
         | (Inr u, st, w1) \<Rightarrow>
             (Inr st, if \<not> quiet then console_log ''Directory check completed.'' w1 else w1))"

definition getUploadDir :: "world \<Rightarrow> string \<Rightarrow> string \<Rightarrow> (error + string) \<times> world" where
  "getUploadDir w userId memoryId =
     (let baseUploadDir = (case UPLOAD_DIR w of
                             None \<Rightarrow> TEMP_PHOTOS_DIR w
                           | Some u \<Rightarrow> if u = [] then TEMP_PHOTOS_DIR w else u);
          userDir = path_join baseUploadDir (''user_'' @ userId);
          memoryDir = path_join userDir (''memory_'' @ memoryId)
      in ensureDir w memoryDir)"

section \<open>Image processing\<close>

record image_options =
  inputPath :: "string option"
  targetDir :: "string option"
  baseName :: "string option"
  width :: "nat option"
  height :: "nat option"
  quality :: "nat option"

record result_metadata =
  out_width :: nat
  out_height :: nat
  out_format :: string
  originalFormat :: string
  out_size :: nat

record process_result =
  processedPath :: string
  metadata :: result_metadata

text \<open>The block of \<^verbatim>\<open>processImage\<close> that removes the original:
  \<^verbatim>\<open>if (fs.existsSync(originalPath)) { ...; fs.unlinkSync(originalPath); }\<close>.
  \<^verbatim>\<open>existsSync(undefined)\<close> is false.\<close>

definition unlink_original :: "world \<Rightarrow> string option \<Rightarrow> error option \<times> world" where
  "unlink_original w originalPath =
     (case originalPath of
        None \<Rightarrow> (None, w)
      | Some orig \<Rightarrow>
          if existsSync w orig then
            unlinkSync
              (console_log (''[processImage] Deleting original temporary file: '' @ orig) w) orig
          else (None, w))"

text \<open>The body of the outer \<^verbatim>\<open>try\<close> of \<^verbatim>\<open>processImage\<close>: metadata, resize and encode,
  unlink of the original, size of the output.\<close>

definition processImage_try ::
  "world \<Rightarrow> string option \<Rightarrow> string \<Rightarrow> nat \<Rightarrow> nat \<Rightarrow> nat \<Rightarrow> (error + process_result) \<times> world" where
  "processImage_try w originalPath optimizedPath wd ht q =
     (let w1 = console_log (''[processImage] Attempting to get metadata for: ''
                              @ show_opt originalPath) w
      in case sharp_metadata w1 originalPath of
        (Inl metadataError, w2) \<Rightarrow>
          (Inl metadataError,
           console_error (''[processImage] Error retrieving metadata for ''
                            @ show_opt originalPath @ '':'') (Some metadataError) w2)
      | (Inr fileMetadata, w2) \<Rightarrow>
          (let w3 = console_log ''[processImage] Successfully retrieved metadata:'' w2;
               w4 = console_log (''[processImage] Attempting to resize and convert to WebP: ''
                                   @ show_opt originalPath) w3
           in case sharp_toFile w4 originalPath wd ht q optimizedPath of
             (Some e, w5) \<Rightarrow> (Inl e, w5)
           | (None, w5) \<Rightarrow>
               (let w6 = console_log (''[processImage] Successfully processed and saved to: ''
                                        @ optimizedPath) w5
                in case unlink_original w6 originalPath of
                  (Some e, w7) \<Rightarrow> (Inl e, w7)
                | (None, w7) \<Rightarrow>
                    (case stat_size w7 optimizedPath of
                       (Inl e, w8) \<Rightarrow> (Inl e, w8)
                     | (Inr newFileSize, w8) \<Rightarrow>
                         (Inr \<lparr>processedPath = optimizedPath,
                               metadata = \<lparr>out_width = md_width fileMetadata,
                                           out_height = md_height fileMetadata,
                                           out_format = ''webp'',
                                           originalFormat = md_format fileMetadata,
                                           out_size = newFileSize\<rparr>\<rparr>,
                          console_log (''[processImage] New file size: ''
                                         @ show_nat newFileSize @ '' bytes'') w8)))))"

text \<open>The \<^verbatim>\<open>catch\<close> of that \<^verbatim>\<open>try\<close>: log, unlink the output if it exists, rethrow.
  An error of the unlink itself replaces the one being handled.\<close>

definition processImage_catch ::
  "world \<Rightarrow> string option \<Rightarrow> string \<Rightarrow> error \<Rightarrow> error \<times> world" where
  "processImage_catch w originalPath optimizedPath error =
     (let w4 = console_error (''[processImage] Error during image processing for ''
                                @ show_opt originalPath @ '':'') (Some error) w
      in if existsSync w4 optimizedPath then
           (case unlinkSync
                   (console_log (''[processImage] Cleaning up partially created file: ''
                                   @ optimizedPath) w4) optimizedPath of
              (Some e, w5) \<Rightarrow> (e, w5)
            | (None, w5) \<Rightarrow> (error, w5))
         else (error, w4))"

definition processImage :: "world \<Rightarrow> image_options \<Rightarrow> (error + process_result) \<times> world" where
  "processImage w options =
     (let originalPath = inputPath options;
          wd = (case width options of None \<Rightarrow> 2000 | Some n \<Rightarrow> n);
          ht = (case height options of None \<Rightarrow> 2000 | Some n \<Rightarrow> n);
          q = (case quality options of None \<Rightarrow> 85 | Some n \<Rightarrow> n);
          w0 = console_log ''[processImage] Received parameters:'' w
      in if falsy (targetDir options) \<or> falsy (baseName options) then
           (Inl (Error ''targetDir and baseName are required for processImage''),
            console_error ''[processImage] Error: targetDir and baseName are required.'' None w0)
         else
           (case ensureDir w0 (show_opt (targetDir options)) of
              (Inl e, w1) \<Rightarrow> (Inl e, w1)
            | (Inr d, w1) \<Rightarrow>
                (let optimizedFileName = show_opt (baseName options) @ ''.webp'';
                     optimizedPath = path_join (show_opt (targetDir options)) optimizedFileName;
                     w2 = console_log (''[processImage] Optimized path will be: ''
                                         @ optimizedPath) w1
                 in case processImage_try w2 originalPath optimizedPath wd ht q of
                   (Inr r, w3) \<Rightarrow> (Inr r, w3)
                 | (Inl error, w3) \<Rightarrow>
                     (case processImage_catch w3 originalPath optimizedPath error of
                        (thrown, w5) \<Rightarrow> (Inl thrown, w5)))))"

section \<open>Deletion helpers\<close>

text \<open>The \<^verbatim>\<open>try\<close> body of one iteration of \<^verbatim>\<open>deleteFiles\<close>.\<close>

definition deleteFiles_try :: "world \<Rightarrow> string \<Rightarrow> (error + unit) \<times> world" where
  "deleteFiles_try w file =
     (if existsSync w file then
        (case unlink w file of
           (Some e, w') \<Rightarrow> (Inl e, w')
         | (None, w') \<Rightarrow> (Inr (), w'))
      else (Inr (), w))"

definition deleteFiles_iter :: "world \<Rightarrow> jsval \<Rightarrow> (error + unit) \<times> world" where
  "deleteFiles_iter w file =
     (if truthy file \<and> is_string file then
        (case file of
           JStr p \<Rightarrow>
             (case deleteFiles_try w p of
                (Inl err, w') \<Rightarrow>
                  (Inr (), console_error (''Error deleting file '' @ p @ '':'') (Some err) w')
              | (Inr u, w') \<Rightarrow> (Inr u, w'))
         | _ \<Rightarrow> (Inr (), w))
      else (Inr (), w))"

fun deleteFiles_loop :: "world \<Rightarrow> jsval list \<Rightarrow> (error + unit) \<times> world" where
  "deleteFiles_loop w [] = (Inr (), w)"
| "deleteFiles_loop w (file # rest) =
     (case deleteFiles_iter w file of
        (Inl e, w') \<Rightarrow> (Inl e, w')
      | (Inr u, w') \<Rightarrow> deleteFiles_loop w' rest)"

definition deleteFiles :: "world \<Rightarrow> jsval \<Rightarrow> (error + unit) \<times> world" where
  "deleteFiles w files_arg =
     deleteFiles_loop w (case files_arg of JArray xs \<Rightarrow> xs | v \<Rightarrow> [v])"

definition deleteFile_try :: "world \<Rightarrow> string \<Rightarrow> (error + bool) \<times> world" where
  "deleteFile_try w filePath =
     (if existsSync w filePath then
        (case unlink w filePath of
           (Some e, w') \<Rightarrow> (Inl e, w')
         | (None, w') \<Rightarrow> (Inr True, w'))
      else (Inr False, w))"

definition deleteFile :: "world \<Rightarrow> jsval \<Rightarrow> (error + bool) \<times> world" where
  "deleteFile w filePath =
     (if truthy filePath \<and> is_string filePath then
        (case filePath of
           JStr p \<Rightarrow>
             (case deleteFile_try w p of
                (Inl err, w') \<Rightarrow>
                  (Inl err, console_error (''Error deleting file '' @ p @ '':'') (Some err) w')
              | (Inr b, w') \<Rightarrow> (Inr b, w'))
         | _ \<Rightarrow> (Inr False, w))
      else (Inr False, w))"

definition deleteFileAndEmptyParent_try :: "world \<Rightarrow> string \<Rightarrow> (error + unit) \<times> world" where
  "deleteFileAndEmptyParent_try w filePath =
     (if existsSync w filePath then
        (case unlink w filePath of
           (Some fileError, w1) \<Rightarrow>
             (Inl fileError,
              console_error (''[deleteFileAndEmptyParent] Failed to delete file: '' @ filePath)
                (Some fileError) w1)
         | (None, w1) \<Rightarrow>
             (let w2 = console_log (''[deleteFileAndEmptyParent] File deleted successfully: ''
                                      @ filePath) w1;
                  parentDir = path_dirname filePath;
                  w3 = console_log (''[deleteFileAndEmptyParent] Checking parent directory: ''
                                      @ parentDir) w2
              in case readdir w3 parentDir of
                (Inl readError, w4) \<Rightarrow>
                  (Inl readError,
                   console_error (''[deleteFileAndEmptyParent] Failed to read directory contents: ''
                                    @ parentDir) (Some readError) w4)
              | (Inr remainingFiles, w4) \<Rightarrow>
                  (let w5 = console_log
                              (''[deleteFileAndEmptyParent] Directory contents before deletion: ''
                                 @ join_with '','' remainingFiles) w4;
                       w6 = console_log (''[deleteFileAndEmptyParent] Remaining files in directory: ''
                                           @ join_with '','' remainingFiles) w5
                   in if length remainingFiles = 0 then
                        (case rmdir w6 parentDir of
                           (Some folderError, w7) \<Rightarrow>
                             (Inl folderError,
                              console_error (''[deleteFileAndEmptyParent] Failed to delete folder: ''
                                               @ parentDir) (Some folderError) w7)
                         | (None, w7) \<Rightarrow>
                             (Inr (),
                              console_log (''[deleteFileAndEmptyParent] Removed empty directory: ''
                                             @ parentDir)
                                (console_log
                                   (''[deleteFileAndEmptyParent] Folder deleted successfully: ''
                                      @ parentDir) w7)))
                      else (Inr (), w6))))
      else (Inr (), w))"

definition deleteFileAndEmptyParent :: "world \<Rightarrow> jsval \<Rightarrow> (error + unit) \<times> world" where
  "deleteFileAndEmptyParent w filePath =
     (if truthy filePath \<and> is_string filePath then
        (case filePath of
           JStr p \<Rightarrow>
             (case deleteFileAndEmptyParent_try w p of
                (Inl err, w') \<Rightarrow>
                  (Inl err,
                   console_error (''Error deleting file or directory '' @ p @ '':'') (Some err) w')
              | (Inr u, w') \<Rightarrow> (Inr u, w'))
         | _ \<Rightarrow> (Inr (), w))
      else (Inr (), w))"

text \<open>The events a call added to the trace of the world it started in.\<close>

definition new_events :: "world \<Rightarrow> world \<Rightarrow> event list" where
  "new_events w w' = drop (length (trace w)) (trace w')"

section \<open>Sample worlds\<close>

text \<open>A host on which every call succeeds: an uploaded \<^verbatim>\<open>/tmp/up/a.jpg\<close> of 100 bytes,
  a 640 by 480 JPEG that encodes to 42 bytes.\<close>

definition upload_world :: world where
  "upload_world =
     \<lparr>files = [([''tmp''], 0), ([''tmp'', ''up''], 0), ([''tmp'', ''up'', ''a.jpg''], 100)],
      cwd = [''srv''], console = [], trace = [],
      fault = (\<lambda>h c. None),
      image_of = (\<lambda>h i. Inr \<lparr>md_width = 640, md_height = 480, md_format = ''jpeg''\<rparr>),
      encode = (\<lambda>h c. Written 42),
      UPLOAD_DIR = None, TEMP_PHOTOS_DIR = ''/tmp/photos''\<rparr>"

definition upload_options :: image_options where
  "upload_options =
     \<lparr>inputPath = Some ''/tmp/up/a.jpg'', targetDir = Some ''/photos'', baseName = Some ''a'',
      width = None, height = None, quality = None\<rparr>"

definition upload_result :: process_result where
  "upload_result =
     \<lparr>processedPath = ''/photos/a.webp'',
      metadata = \<lparr>out_width = 640, out_height = 480, out_format = ''webp'',
                  originalFormat = ''jpeg'', out_size = 42\<rparr>\<rparr>"

text \<open>The same host with a second upload, \<^verbatim>\<open>/tmp/up/b.jpg\<close>, that cannot be unlinked.\<close>

definition locked_world :: world where
  "locked_world =
     upload_world
       \<lparr>files := files upload_world @ [([''tmp'', ''up'', ''b.jpg''], 7)],
        fault := (\<lambda>h c. if c = Unlink ''/tmp/up/b.jpg'' then Some EACCES else None)\<rparr>"

definition locked_batch :: jsval where
  "locked_batch =
     JArray [JNull, JStr ''/tmp/up/b.jpg'', JNum 3, JStr ''/tmp/up/a.jpg'', JStr ''/nope'']"

definition sample_dirs :: "string list" where
  "sample_dirs = [''/data/a'', ''/tmp'']"

definition default_options :: dir_options where
  "default_options = \<lparr>silent = None, recursive = None\<rparr>"

text \<open>The same host started with \<^verbatim>\<open>UPLOAD_DIR=\<close> (set, to the empty string).\<close>

definition blank_env_world :: world where
  "blank_env_world = upload_world\<lparr>UPLOAD_DIR := Some []\<rparr>"

text \<open>A host whose encoder fails after writing 7 bytes of output; and the same host where,
  on top of that, the output file cannot be unlinked.\<close>

definition failing_world :: world where
  "failing_world = upload_world\<lparr>encode := (\<lambda>h c. FailedPartial 7 ''write failed'')\<rparr>"

definition stuck_world :: world where
  "stuck_world =
     failing_world
       \<lparr>fault := (\<lambda>h c. if c = UnlinkSync ''/photos/a.webp'' then Some EACCES else None)\<rparr>"

text \<open>A read-only host: every file-system call fails.\<close>

definition readonly_world :: world where
  "readonly_world = upload_world\<lparr>fault := (\<lambda>h c. Some EACCES)\<rparr>"

definition silent_options :: dir_options where
  "silent_options = \<lparr>silent = Some True, recursive = None\<rparr>"

section \<open>Facts about the host\<close>

lemma console_log_fields [simp]:
  "files (console_log m w) = files w"
  "cwd (console_log m w) = cwd w"
  "trace (console_log m w) = trace w"
  "fault (console_log m w) = fault w"
  "image_of (console_log m w) = image_of w"
  "encode (console_log m w) = encode w"
  "console (console_log m w) = console w @ [(LOG, m, None)]"
  by (simp_all add: console_log_def)

lemma console_error_fields [simp]:
  "files (console_error m e w) = files w"
  "cwd (console_error m e w) = cwd w"
  "trace (console_error m e w) = trace w"
  "fault (console_error m e w) = fault w"
  "image_of (console_error m e w) = image_of w"
  "encode (console_error m e w) = encode w"
  "console (console_error m e w) = console w @ [(ERROR, m, e)]"
  by (simp_all add: console_error_def)

lemma existsSync_cong: "files w' = files w \<Longrightarrow> cwd w' = cwd w \<Longrightarrow> existsSync w' p = existsSync w p"
  by (simp add: existsSync_def split: option.splits)

lemma existsSync_console [simp]:
  "existsSync (console_log m w) p = existsSync w p"
  "existsSync (console_error m e w) p = existsSync w p"
  by (simp_all add: existsSync_def split: option.splits)

lemma exists_root [simp]: "exists_entry fs []"
  by (simp add: exists_entry_def)

lemma exists_remove: "exists_entry (remove_entry fs k) q = (q = [] \<or> (q \<noteq> k \<and> exists_entry fs q))"
  by (auto simp: exists_entry_def remove_entry_def)

lemma exists_add: "exists_entry (add_entry fs k n) q = (q = k \<or> exists_entry fs q)"
  by (auto simp: exists_entry_def add_entry_def remove_entry_def)

lemma exists_ensure: "exists_entry (ensure_entry fs k) q = (q = k \<or> exists_entry fs q)"
  by (auto simp: exists_entry_def ensure_entry_def)

lemma exists_foldl_ensure:
  "exists_entry (foldl ensure_entry fs ks) q = (q \<in> set ks \<or> exists_entry fs q)"
  by (induction ks arbitrary: fs) (auto simp: exists_ensure)

lemma exists_mkdir_p: "exists_entry (mkdir_p fs k) q = ((\<exists>n. 1 \<le> n \<and> n \<le> length k \<and> q = take n k) \<or> exists_entry fs q)"
  by (auto simp: mkdir_p_def exists_foldl_ensure)

lemma exists_mkdir_p_self: "exists_entry (mkdir_p fs k) k"
proof (cases "k = []")
  case True
  then show ?thesis by (simp add: exists_entry_def)
next
  case False
  then have "1 \<le> length k \<and> length k \<le> length k \<and> k = take (length k) k"
    by (cases k) simp_all
  then show ?thesis unfolding exists_mkdir_p by blast
qed

lemma log_event_fields [simp]:
  "files (log_event c e w) = files w"
  "cwd (log_event c e w) = cwd w"
  "console (log_event c e w) = console w"
  "fault (log_event c e w) = fault w"
  "image_of (log_event c e w) = image_of w"
  "encode (log_event c e w) = encode w"
  "trace (log_event c e w) = trace w @ [\<lparr>op = c, before = files w, raised = e\<rparr>]"
  by (simp_all add: log_event_def)

lemma fs_call_None:
  "fs_call c forced eff w = (None, w') \<longleftrightarrow>
     forced = None \<and> fault w (trace w) c = None \<and> w' = (log_event c None w)\<lparr>files := eff (files w)\<rparr>"
  by (auto simp: fs_call_def split: option.splits)

lemma fs_call_Some:
  "fs_call c forced eff w = (Some e, w') \<longleftrightarrow>
     (\<exists>n. e = SystemError n c \<and> (forced = Some n \<or> forced = None \<and> fault w (trace w) c = Some n))
      \<and> w' = log_event c (Some e) w"
  by (auto simp: fs_call_def split: option.splits)

lemma mkdirSync_frame:
  assumes "mkdirSync w p r = (res, w')"
  shows "cwd w' = cwd w" "console w' = console w" "fault w' = fault w"
        "image_of w' = image_of w" "encode w' = encode w"
        "trace w' = trace w @ [\<lparr>op = MkdirSync p r, before = files w, raised = res\<rparr>]"
  using assms by (cases res; auto simp: mkdirSync_def fs_call_None fs_call_Some split: option.splits if_splits)+

lemma mkdirSync_ok:
  assumes "mkdirSync w p r = (None, w')"
  shows "existsSync w' p" "existsSync w q \<Longrightarrow> existsSync w' q"
  using assms
  by (auto simp: mkdirSync_def existsSync_def exists_mkdir_p_self exists_mkdir_p exists_add fs_call_None
      split: option.splits if_splits)

lemma mkdirSync_err:
  assumes "mkdirSync w p r = (Some e, w')"
  shows "files w' = files w" "\<exists>n. e = SystemError n (MkdirSync p r)"
  using assms by (auto simp: mkdirSync_def fs_call_Some split: option.splits if_splits)

lemma unlink_as_frame:
  assumes "unlink_as c w p = (res, w')"
  shows "cwd w' = cwd w" "console w' = console w" "fault w' = fault w"
        "image_of w' = image_of w" "encode w' = encode w"
        "trace w' = trace w @ [\<lparr>op = c, before = files w, raised = res\<rparr>]"
  using assms by (cases res; auto simp: unlink_as_def fs_call_None fs_call_Some split: option.splits if_splits)+

lemma unlink_as_ok:
  assumes "unlink_as c w p = (None, w')"
  shows "\<not> existsSync w' p"
    and "\<exists>k. resolve (cwd w) p = Some k \<and> k \<noteq> [] \<and> files w' = remove_entry (files w) k"
    and "existsSync w' q \<Longrightarrow> existsSync w q"
  using assms
  by (auto simp: unlink_as_def existsSync_def exists_remove fs_call_None
      split: option.splits if_splits)

lemma unlink_as_err:
  assumes "unlink_as c w p = (Some e, w')"
  shows "files w' = files w" "\<exists>n. e = SystemError n c"
  using assms by (auto simp: unlink_as_def fs_call_Some split: option.splits if_splits)

lemma stat_size_frame:
  assumes "stat_size w p = (res, w')"
  shows "cwd w' = cwd w" "console w' = console w" "files w' = files w"
    and "trace w' = trace w @ [\<lparr>op = Stat p, before = files w,
            raised = (case res of Inl e \<Rightarrow> Some e | Inr n \<Rightarrow> None)\<rparr>]"
    and "\<And>n. res = Inr n \<Longrightarrow> existsSync w p"
  using assms
  by (auto simp: stat_size_def existsSync_def fs_call_None fs_call_Some Let_def
      split: option.splits if_splits prod.splits)

lemma readdir_frame:
  assumes "readdir w p = (res, w')"
  shows "cwd w' = cwd w" "console w' = console w" "files w' = files w"
    and "trace w' = trace w @ [\<lparr>op = Readdir p, before = files w,
            raised = (case res of Inl e \<Rightarrow> Some e | Inr n \<Rightarrow> None)\<rparr>]"
    and "\<And>xs. res = Inr xs \<Longrightarrow> \<exists>k. resolve (cwd w) p = Some k \<and> xs = children (files w) k"
  using assms
  by (auto simp: readdir_def existsSync_def fs_call_None fs_call_Some Let_def
      split: option.splits if_splits prod.splits)

lemma rmdir_frame:
  assumes "rmdir w p = (res, w')"
  shows "cwd w' = cwd w" "console w' = console w"
        "trace w' = trace w @ [\<lparr>op = Rmdir p, before = files w, raised = res\<rparr>]"
  using assms by (cases res; auto simp: rmdir_def fs_call_None fs_call_Some split: option.splits if_splits)+

lemma sharp_metadata_frame:
  assumes "sharp_metadata w i = (res, w')"
  shows "cwd w' = cwd w" "console w' = console w" "files w' = files w"
    and "trace w' = trace w @ [\<lparr>op = SharpMetadata i, before = files w,
            raised = (case res of Inl e \<Rightarrow> Some e | Inr n \<Rightarrow> None)\<rparr>]"
  using assms by (auto simp: sharp_metadata_def split: sum.splits)

lemma sharp_toFile_frame:
  assumes "sharp_toFile w i wd ht q out = (res, w')"
  shows "cwd w' = cwd w" "console w' = console w"
    and "trace w' = trace w @ [\<lparr>op = SharpToFile i wd ht q out, before = files w, raised = res\<rparr>]"
  using assms
  by (auto simp: sharp_toFile_def Let_def split: option.splits write_outcome.splits)



lemma stat_size_exists: "stat_size w p = (res, w') \<Longrightarrow> existsSync w' q = existsSync w q"
  by (rule existsSync_cong) (simp_all add: stat_size_frame)

section \<open>Facts about paths\<close>

lemma split_slash_nonempty [simp]: "split_slash p \<noteq> []"
  by (induction p) (auto split: list.splits)

lemma split_slash_append: "split_slash (x @ CHR ''/'' # y) = split_slash x @ split_slash y"
  by (induction x) (auto split: list.splits)

lemma split_slash_free: "s \<in> set (split_slash p) \<Longrightarrow> CHR ''/'' \<notin> set s"
  by (induction p arbitrary: s) (auto split: list.splits if_splits)

lemma split_slash_plain: "CHR ''/'' \<notin> set s \<Longrightarrow> split_slash s = [s]"
  by (induction s) auto

lemma norm_segs_append:
  "norm_segs ab acc (xs @ ys) = norm_segs ab (rev (norm_segs ab acc xs)) ys"
  by (induction ab acc xs rule: norm_segs.induct) (auto split: list.splits)

lemma shaped_Nil [simp]: "shaped ab []"
  by (auto simp: shaped_def intro: exI[of _ 0])

lemma shaped_push: "shaped ab acc \<Longrightarrow> plain s \<Longrightarrow> shaped ab (s # acc)"
  unfolding shaped_def by (metis Cons_eq_appendI set_ConsD)

lemma shaped_pop: "shaped ab (a # acc) \<Longrightarrow> shaped ab acc"
  unfolding shaped_def
  apply clarify
  subgoal for k r
    apply (cases r)
     apply (cases k; simp)
     apply (metis append_Nil empty_iff list.set(1) replicate_empty)
    apply (auto)
    done
  done

lemma shaped_dots: "shaped True acc \<Longrightarrow> (acc = [] \<or> hd acc = ''..'') \<Longrightarrow> shaped True (''..'' # acc)"
  unfolding shaped_def
  apply clarify
  subgoal for k r
    apply (cases r)
     apply (rule exI[of _ "Suc k"], rule exI[of _ "[]"], simp add: replicate_append_same)
    apply (auto simp: plain_def)
    done
  done

lemma shaped_head_dots: "shaped False (a # acc) \<Longrightarrow> a \<noteq> ''..''"
  by (auto simp: shaped_def plain_def)

lemma norm_segs_shaped:
  "shaped ab acc \<Longrightarrow> (\<forall>s\<in>set xs. CHR ''/'' \<notin> set s) \<Longrightarrow> shaped ab (rev (norm_segs ab acc xs))"
proof (induction ab acc xs rule: norm_segs.induct)
  case (1 ab acc)
  then show ?case by simp
next
  case (2 ab acc seg segs)
  show ?case
  proof (cases "seg = [] \<or> seg = ''.''")
    case True
    with 2 show ?thesis by auto
  next
    case False
    show ?thesis
    proof (cases "seg = ''..''")
      case dots: True
      show ?thesis
      proof (cases acc)
        case Nil
        have "shaped ab (if ab then [''..''] else [])"
          using shaped_dots[of "[]"] by (cases ab) auto
        with 2 False dots Nil show ?thesis by auto
      next
        case (Cons a acc')
        show ?thesis
        proof (cases "a = ''..''")
          case True
          have "shaped ab (if ab then ''..'' # acc else acc)"
            using shaped_dots[of acc] "2.prems"(1) Cons True by (cases ab) auto
          with 2 False dots Cons True show ?thesis by auto
        next
          case notdots: False
          have "shaped ab acc'" using "2.prems"(1) Cons shaped_pop by blast
          with 2 False dots Cons notdots show ?thesis by auto
        qed
      qed
    next
      case plainseg: False
      with False "2.prems"(2) have "plain seg" by (auto simp: plain_def)
      with "2.prems"(1) have "shaped ab (seg # acc)" by (simp add: shaped_push)
      with 2 False plainseg show ?thesis by auto
    qed
  qed
qed

lemma norm_segs_plain:
  "\<forall>s\<in>set xs. plain s \<Longrightarrow> norm_segs ab acc xs = rev acc @ xs"
  by (induction xs arbitrary: acc) (auto simp: plain_def)

lemma norm_segs_dots:
  "acc = [] \<or> hd acc = ''..'' \<Longrightarrow>
   norm_segs True acc (replicate k ''..'' @ xs) = norm_segs True (replicate k ''..'' @ acc) xs"
proof (induction k arbitrary: acc)
  case 0
  then show ?case by simp
next
  case (Suc k)
  have "norm_segs True acc (''..'' # replicate k ''..'' @ xs)
          = norm_segs True (''..'' # acc) (replicate k ''..'' @ xs)"
    using Suc.prems by (cases acc) auto
  also have "\<dots> = norm_segs True (replicate k ''..'' @ ''..'' # acc) xs"
    by (rule Suc.IH) simp
  finally show ?case by (simp add: replicate_app_Cons_same)
qed

lemma norm_segs_idem:
  assumes "shaped ab acc"
  shows "norm_segs ab [] (rev acc) = rev acc"
proof -
  from assms obtain k r where a: "acc = r @ replicate k ''..''" "\<forall>s\<in>set r. plain s"
    "\<not> ab \<longrightarrow> k = 0" by (auto simp: shaped_def)
  show ?thesis
  proof (cases ab)
    case True
    have "norm_segs True [] (replicate k ''..'' @ rev r) = norm_segs True (replicate k ''..'' @ []) (rev r)"
      by (rule norm_segs_dots) simp
    also have "\<dots> = rev (replicate k ''..'') @ rev r"
      using a(2) by (simp add: norm_segs_plain)
    finally show ?thesis using a(1) True by simp
  next
    case False
    with a have "acc = r" by simp
    with a(2) False show ?thesis by (simp add: norm_segs_plain)
  qed
qed



lemma shaped_elems:
  assumes "shaped ab acc" and "s \<in> set acc"
  shows "s \<noteq> [] \<and> CHR ''/'' \<notin> set s"
proof -
  from assms(1) obtain k r where a: "acc = r @ replicate k ''..''" "\<forall>s\<in>set r. plain s"
    unfolding shaped_def by blast
  from assms(2) a(1) have "s \<in> set r \<or> s = ''..''" by auto
  then show ?thesis
  proof
    assume "s \<in> set r"
    with a(2) have "plain s" by blast
    then show ?thesis unfolding plain_def by blast
  next
    assume "s = ''..''"
    then show ?thesis by simp
  qed
qed


lemma join_with_nonempty: "segs \<noteq> [] \<Longrightarrow> \<forall>s\<in>set segs. s \<noteq> [] \<Longrightarrow> join_with sep segs \<noteq> []"
  by (induction sep segs rule: join_with.induct) auto


lemma hd_join_with: "segs \<noteq> [] \<Longrightarrow> hd segs \<noteq> [] \<Longrightarrow> hd (join_with sep segs) = hd (hd segs)"
  by (induction sep segs rule: join_with.induct) auto


lemma split_join_with:
  "segs \<noteq> [] \<Longrightarrow> \<forall>s\<in>set segs. CHR ''/'' \<notin> set s \<Longrightarrow> split_slash (join_with ''/'' segs) = segs"
proof (induction "''/''" segs rule: join_with.induct)
  case 1
  then show ?case by simp
next
  case (2 x)
  then show ?case by (simp add: split_slash_plain)
next
  case (3 x y ys)
  then show ?case by (simp add: split_slash_append split_slash_plain)
qed


lemma norm_segs_skip_empty [simp]: "norm_segs ab acc ([] # xs) = norm_segs ab acc xs"
  by simp


lemma norm_segs_trailing_empty: "norm_segs ab [] (xs @ [[]]) = norm_segs ab [] xs"
  by (simp add: norm_segs_append)


lemma norm_segs_leading_slash:
  "norm_segs ab [] (split_slash (''/'' @ y)) = norm_segs ab [] (split_slash y)"
  by simp



lemma path_normalize_cases:
  assumes "p \<noteq> []"
  shows "path_normalize p =
     (if join_with ''/'' (norm_segs (hd p \<noteq> CHR ''/'') [] (split_slash p)) = [] then
        (if hd p = CHR ''/'' then ''/'' else if last p = CHR ''/'' then ''./'' else ''.'')
      else (if hd p = CHR ''/'' then ''/'' else [])
             @ join_with ''/'' (norm_segs (hd p \<noteq> CHR ''/'') [] (split_slash p))
             @ (if last p = CHR ''/'' then ''/'' else []))"
  using assms unfolding path_normalize_def Let_def by (simp only: if_False not_not)

lemma path_normalize_resplit:
  assumes "p \<noteq> []"
  shows "path_normalize p \<noteq> []"
    and "(hd (path_normalize p) = CHR ''/'') = (hd p = CHR ''/'')"
    and "norm_segs (hd p \<noteq> CHR ''/'') [] (split_slash (path_normalize p))
           = norm_segs (hd p \<noteq> CHR ''/'') [] (split_slash p)"
proof -
  define ab where "ab = (hd p \<noteq> CHR ''/'')"
  define S where "S = norm_segs ab [] (split_slash p)"
  define body where "body = join_with ''/'' S"
  have sh: "shaped ab (rev S)"
    unfolding S_def by (rule norm_segs_shaped) (auto dest: split_slash_free)
  have el: "\<forall>s\<in>set S. s \<noteq> [] \<and> CHR ''/'' \<notin> set s"
    using shaped_elems[OF sh] by auto
  have idem: "norm_segs ab [] S = S" using norm_segs_idem[OF sh] by simp
  have np: "path_normalize p =
     (if body = [] then
        (if \<not> ab then ''/'' else if last p = CHR ''/'' then ''./'' else ''.'')
      else (if \<not> ab then ''/'' else []) @ body @ (if last p = CHR ''/'' then ''/'' else []))"
    unfolding path_normalize_cases[OF assms] body_def S_def ab_def by (simp only: not_not)
  have bodyS: "body = [] \<longleftrightarrow> S = []"
    using join_with_nonempty[of S "''/''"] el by (auto simp: body_def)
  show "path_normalize p \<noteq> []"
    unfolding np by (cases "body = []"; cases ab; cases "last p = CHR ''/''") simp_all
  show "(hd (path_normalize p) = CHR ''/'') = (hd p = CHR ''/'')"
  proof (cases "body = []")
    case True
    then show ?thesis unfolding np
      by (cases ab; cases "last p = CHR ''/''") (simp_all add: ab_def)
  next
    case False
    with bodyS have S: "S \<noteq> []" by simp
    with el have "hd body = hd (hd S)" unfolding body_def by (intro hd_join_with) auto
    moreover from S el have "hd (hd S) \<noteq> CHR ''/''"
      by (cases S) (auto simp: neq_Nil_conv)
    ultimately have hb: "hd body \<noteq> CHR ''/''" by simp
    from False hb show ?thesis unfolding np
      by (cases ab; cases "last p = CHR ''/''") (simp_all add: ab_def)
  qed
  have "norm_segs ab [] (split_slash (path_normalize p)) = S"
  proof (cases "body = []")
    case True
    with bodyS have "S = []" by simp
    with True show ?thesis unfolding np
      by (cases ab; cases "last p = CHR ''/''") simp_all
  next
    case False
    with bodyS have S: "S \<noteq> []" by simp
    with el have sp: "split_slash body = S" unfolding body_def by (intro split_join_with) auto
    have sp2: "split_slash (body @ ''/'') = S @ [[]]"
      using split_slash_append[of body "[]"] sp by simp
    have A: "norm_segs ab [] (split_slash body) = S" by (simp only: sp idem)
    have B: "norm_segs ab [] (split_slash (body @ ''/'')) = S"
      by (simp only: sp2 norm_segs_trailing_empty idem)
    have C: "norm_segs ab [] (split_slash (''/'' @ body)) = S"
      by (simp only: norm_segs_leading_slash A)
    have D: "norm_segs ab [] (split_slash (''/'' @ body @ ''/'')) = S"
      by (simp only: norm_segs_leading_slash B)
    show ?thesis
    proof (cases ab)
      case True
      show ?thesis
      proof (cases "last p = CHR ''/''")
        case True
        with \<open>ab\<close> False B show ?thesis unfolding np
          by (simp del: norm_segs.simps split_slash.simps)
      next
        case notrail: False
        with \<open>ab\<close> False A show ?thesis unfolding np
          by (simp del: norm_segs.simps split_slash.simps)
      qed
    next
      case abs: False
      show ?thesis
      proof (cases "last p = CHR ''/''")
        case True
        with abs False D show ?thesis unfolding np by (simp del: norm_segs.simps split_slash.simps)
      next
        case notrail: False
        with abs False C show ?thesis unfolding np
          by (simp del: norm_segs.simps split_slash.simps)
      qed
    qed
  qed
  then show "norm_segs (hd p \<noteq> CHR ''/'') [] (split_slash (path_normalize p))
           = norm_segs (hd p \<noteq> CHR ''/'') [] (split_slash p)"
    by (simp only: S_def ab_def)
qed

lemma path_normalize_step:
  assumes "x \<noteq> []" and "m \<noteq> []"
  shows "path_normalize (path_normalize x @ ''/'' @ m) = path_normalize (x @ ''/'' @ m)"
proof -
  note r = path_normalize_resplit[OF assms(1)]
  have h: "(hd (path_normalize x @ ''/'' @ m) = CHR ''/'') = (hd (x @ ''/'' @ m) = CHR ''/'')"
    using r(1,2) assms(1) by simp
  have l: "last (path_normalize x @ ''/'' @ m) = last (x @ ''/'' @ m)"
    using assms(2) by simp
  have b: "norm_segs (hd x \<noteq> CHR ''/'') [] (split_slash (path_normalize x @ ''/'' @ m))
         = norm_segs (hd x \<noteq> CHR ''/'') [] (split_slash (x @ ''/'' @ m))"
    using r(3) by (simp add: split_slash_append norm_segs_append)
  have hx: "hd (x @ ''/'' @ m) = hd x" using assms(1) by simp
  show ?thesis
    unfolding path_normalize_def[of "path_normalize x @ ''/'' @ m"]
              path_normalize_def[of "x @ ''/'' @ m"] Let_def h l
    using b r(1) assms(1) hx by simp
qed

lemma path_join_nested:
  assumes "u \<noteq> []" and "m \<noteq> []"
  shows "path_join (path_join b u) m = path_join b (u @ ''/'' @ m)"
proof -
  define x where "x = (if b = [] then u else b @ ''/'' @ u)"
  have x: "x \<noteq> []" using assms(1) by (simp add: x_def)
  have 1: "path_join b u = path_normalize x"
    using x assms(1) by (simp add: path_join_def x_def)
  have 2: "path_join (path_normalize x) m = path_normalize (path_normalize x @ ''/'' @ m)"
    using path_normalize_resplit(1)[OF x] assms(2) by (simp add: path_join_def)
  have 3: "path_join b (u @ ''/'' @ m) = path_normalize (x @ ''/'' @ m)"
    by (simp add: path_join_def x_def)
  show ?thesis unfolding 1 2 3 by (rule path_normalize_step[OF x assms(2)])
qed

section \<open>Image processing: the success path and the argument check\<close>

lemma processImage_try_original:
  assumes "processImage_try w (Some orig) out wd ht q = (Inr r, w')"
  shows "\<not> existsSync w' orig"
  using assms
  by (auto simp: processImage_try_def unlink_original_def Let_def unlinkSync_def stat_size_exists
      split: prod.splits sum.splits option.splits if_splits dest: unlink_as_ok(1))

text \<open>
  Claim C1. Whenever \<^verbatim>\<open>processImage\<close> returns a result instead of throwing, nothing
  exists at \<^verbatim>\<open>inputPath\<close> afterwards: the original has been unlinked on the way (or was
  already gone), and nothing after the unlink creates it again.
\<close>

theorem processImage_success_removes_original:
  assumes "processImage w options = (Inr r, w')" and "inputPath options = Some orig"
  shows "\<not> existsSync w' orig"
  using assms
  by (auto simp: processImage_def Let_def
      split: prod.splits sum.splits option.splits if_splits dest: processImage_try_original)

theorem processImage_success_removes_original_witness:
  "processImage upload_world upload_options
     = (Inr upload_result, snd (processImage upload_world upload_options))
   \<and> inputPath upload_options = Some ''/tmp/up/a.jpg''
   \<and> existsSync upload_world ''/tmp/up/a.jpg''
   \<and> \<not> existsSync (snd (processImage upload_world upload_options)) ''/tmp/up/a.jpg''"
proof -
  have res: "fst (processImage upload_world upload_options) = Inr upload_result"
    by code_simp
  have run: "processImage upload_world upload_options
               = (Inr upload_result, snd (processImage upload_world upload_options))"
    using res by (cases "processImage upload_world upload_options") simp
  have inp: "inputPath upload_options = Some ''/tmp/up/a.jpg''"
    by (simp add: upload_options_def)
  have there: "existsSync upload_world ''/tmp/up/a.jpg''"
    by code_simp
  from processImage_success_removes_original [OF run inp] run inp there
  show ?thesis by simp
qed

text \<open>
  Claim C8. When \<^verbatim>\<open>targetDir\<close> or \<^verbatim>\<open>baseName\<close> is missing or empty, \<^verbatim>\<open>processImage\<close>
  throws \<^verbatim>\<open>Error("targetDir and baseName are required for processImage")\<close> before any
  library call: the file table is the one it started with and the trace has no new event.
\<close>

theorem processImage_requires_target:
  assumes "falsy (targetDir options) \<or> falsy (baseName options)"
  shows "fst (processImage w options) =
           Inl (Error ''targetDir and baseName are required for processImage'')
         \<and> files (snd (processImage w options)) = files w
         \<and> trace (snd (processImage w options)) = trace w"
  using assms by (auto simp: processImage_def Let_def)

theorem processImage_requires_target_witness:
  "falsy (targetDir (upload_options\<lparr>targetDir := None\<rparr>))
   \<and> fst (processImage upload_world (upload_options\<lparr>targetDir := None\<rparr>)) =
       Inl (Error ''targetDir and baseName are required for processImage'')
   \<and> files (snd (processImage upload_world (upload_options\<lparr>targetDir := None\<rparr>)))
       = files upload_world
   \<and> trace (snd (processImage upload_world (upload_options\<lparr>targetDir := None\<rparr>)))
       = trace upload_world"
proof -
  have h: "falsy (targetDir (upload_options\<lparr>targetDir := None\<rparr>))
           \<or> falsy (baseName (upload_options\<lparr>targetDir := None\<rparr>))"
    by simp
  from processImage_requires_target [OF h, of upload_world] show ?thesis by simp
qed

section \<open>Deletion helpers: who throws and who does not\<close>

lemma unlink_as_exists_back:
  assumes "unlink_as c w p = (res, w')" and "existsSync w' q"
  shows "existsSync w q"
proof (cases res)
  case None
  with assms show ?thesis by (auto dest: unlink_as_ok(3))
next
  case (Some e)
  with assms(1) have "files w' = files w" "cwd w' = cwd w"
    by (auto dest: unlink_as_err(1) unlink_as_frame(1))
  then have "existsSync w' q = existsSync w q" by (rule existsSync_cong)
  with assms(2) show ?thesis by simp
qed


lemma deleteFiles_iter_spec:
  assumes "deleteFiles_iter w x = (r, w1)"
  shows "r = Inr ()" and "cwd w1 = cwd w"
    and "\<exists>evs. trace w1 = trace w @ evs
          \<and> length (filter (\<lambda>l. fst l = ERROR) (console w1))
              = length (filter (\<lambda>l. fst l = ERROR) (console w)) + length (filter (\<lambda>ev. raised ev \<noteq> None) evs)
          \<and> (\<forall>p. x = JStr p \<and> p \<noteq> [] \<longrightarrow>
                \<not> existsSync w1 p \<or> (\<exists>ev\<in>set evs. op ev = Unlink p \<and> raised ev \<noteq> None))"
    and "\<And>q. existsSync w1 q \<Longrightarrow> existsSync w q"
proof -
  show "r = Inr ()" using assms
    by (auto simp: deleteFiles_iter_def split: jsval.splits prod.splits sum.splits if_splits)
  show "cwd w1 = cwd w" using assms
    by (auto simp: deleteFiles_iter_def deleteFiles_try_def unlink_def
        split: jsval.splits prod.splits sum.splits if_splits option.splits dest: unlink_as_frame(1))
  show "\<And>q. existsSync w1 q \<Longrightarrow> existsSync w q" using assms
    by (auto simp: deleteFiles_iter_def deleteFiles_try_def unlink_def
        split: jsval.splits prod.splits sum.splits if_splits option.splits dest: unlink_as_exists_back)
  show "\<exists>evs. trace w1 = trace w @ evs
          \<and> length (filter (\<lambda>l. fst l = ERROR) (console w1))
              = length (filter (\<lambda>l. fst l = ERROR) (console w)) + length (filter (\<lambda>ev. raised ev \<noteq> None) evs)
          \<and> (\<forall>p. x = JStr p \<and> p \<noteq> [] \<longrightarrow>
                \<not> existsSync w1 p \<or> (\<exists>ev\<in>set evs. op ev = Unlink p \<and> raised ev \<noteq> None))"
  proof (cases "\<exists>p. x = JStr p \<and> p \<noteq> [] \<and> existsSync w p")
    case False
    then have "w1 = w" using assms
      by (auto simp: deleteFiles_iter_def deleteFiles_try_def split: jsval.splits if_splits)
    with False show ?thesis by (intro exI[of _ "[]"]) auto
  next
    case True
    then obtain p where x: "x = JStr p" "p \<noteq> []" "existsSync w p" by blast
    obtain res w2 where u: "unlink_as (Unlink p) w p = (res, w2)" by (cases "unlink_as (Unlink p) w p")
    note fr = unlink_as_frame[OF u]
    show ?thesis
    proof (cases res)
      case None
      with x u assms have "w1 = w2" by (simp add: deleteFiles_iter_def deleteFiles_try_def unlink_def)
      with None x u fr unlink_as_ok(1)[of "Unlink p" w p w2] show ?thesis
        by (intro exI[of _ "[\<lparr>op = Unlink p, before = files w, raised = None\<rparr>]"])
           simp
    next
      case (Some e)
      with x u assms have "w1 = console_error (''Error deleting file '' @ p @ '':'') (Some e) w2"
        by (simp add: deleteFiles_iter_def deleteFiles_try_def unlink_def)
      with Some x u fr show ?thesis
        by (intro exI[of _ "[\<lparr>op = Unlink p, before = files w, raised = Some e\<rparr>]"])
           simp
    qed
  qed
qed


lemma deleteFiles_loop_spec:
  "\<exists>w' evs. deleteFiles_loop w xs = (Inr (), w') \<and> cwd w' = cwd w
      \<and> (\<forall>q. existsSync w' q \<longrightarrow> existsSync w q)
      \<and> trace w' = trace w @ evs
      \<and> length (filter (\<lambda>l. fst l = ERROR) (console w'))
          = length (filter (\<lambda>l. fst l = ERROR) (console w))
            + length (filter (\<lambda>ev. raised ev \<noteq> None) evs)
      \<and> (\<forall>p. JStr p \<in> set xs \<and> p \<noteq> [] \<longrightarrow>
            \<not> existsSync w' p \<or> (\<exists>ev\<in>set evs. op ev = Unlink p \<and> raised ev \<noteq> None))"
proof (induction xs arbitrary: w)
  case Nil
  show ?case by simp
next
  case (Cons x xs)
  obtain r w1 where it: "deleteFiles_iter w x = (r, w1)" by (cases "deleteFiles_iter w x")
  from deleteFiles_iter_spec[OF it] obtain evs1 where
    r: "r = Inr ()" and c1: "cwd w1 = cwd w"
    and t1: "trace w1 = trace w @ evs1"
    and l1: "length (filter (\<lambda>l. fst l = ERROR) (console w1))
              = length (filter (\<lambda>l. fst l = ERROR) (console w))
                + length (filter (\<lambda>ev. raised ev \<noteq> None) evs1)"
    and d1: "\<forall>p. x = JStr p \<and> p \<noteq> [] \<longrightarrow>
                \<not> existsSync w1 p \<or> (\<exists>ev\<in>set evs1. op ev = Unlink p \<and> raised ev \<noteq> None)"
    and m1: "\<And>q. existsSync w1 q \<Longrightarrow> existsSync w q"
    by blast
  from Cons.IH[of w1] obtain w' evs2 where
    run: "deleteFiles_loop w1 xs = (Inr (), w')" and c2: "cwd w' = cwd w1"
    and m2: "\<forall>q. existsSync w' q \<longrightarrow> existsSync w1 q"
    and t2: "trace w' = trace w1 @ evs2"
    and l2: "length (filter (\<lambda>l. fst l = ERROR) (console w'))
              = length (filter (\<lambda>l. fst l = ERROR) (console w1))
                + length (filter (\<lambda>ev. raised ev \<noteq> None) evs2)"
    and d2: "\<forall>p. JStr p \<in> set xs \<and> p \<noteq> [] \<longrightarrow>
                \<not> existsSync w' p \<or> (\<exists>ev\<in>set evs2. op ev = Unlink p \<and> raised ev \<noteq> None)"
    by blast
  have "deleteFiles_loop w (x # xs) = (Inr (), w')" using it r run by simp
  moreover have "cwd w' = cwd w" using c1 c2 by simp
  moreover have "\<forall>q. existsSync w' q \<longrightarrow> existsSync w q" using m1 m2 by blast
  moreover have "trace w' = trace w @ (evs1 @ evs2)" using t1 t2 by simp
  moreover have "length (filter (\<lambda>l. fst l = ERROR) (console w'))
          = length (filter (\<lambda>l. fst l = ERROR) (console w))
            + length (filter (\<lambda>ev. raised ev \<noteq> None) (evs1 @ evs2))"
    using l1 l2 by simp
  moreover have "\<forall>p. JStr p \<in> set (x # xs) \<and> p \<noteq> [] \<longrightarrow>
            \<not> existsSync w' p
            \<or> (\<exists>ev\<in>set (evs1 @ evs2). op ev = Unlink p \<and> raised ev \<noteq> None)"
  proof (intro allI impI)
    fix p assume a: "JStr p \<in> set (x # xs) \<and> p \<noteq> []"
    show "\<not> existsSync w' p
            \<or> (\<exists>ev\<in>set (evs1 @ evs2). op ev = Unlink p \<and> raised ev \<noteq> None)"
    proof (cases "x = JStr p")
      case True
      with a d1 m2 show ?thesis unfolding set_append by blast
    next
      case False
      with a have "JStr p \<in> set xs" by auto
      with a d2 show ?thesis unfolding set_append by blast
    qed
  qed
  ultimately show ?case by blast
qed

text \<open>
  Claim C9. \<^verbatim>\<open>deleteFiles\<close> never throws, whatever it is given (an array or a single
  value; elements that are not strings, \<^verbatim>\<open>null\<close>, missing files, files whose unlink
  fails). Every element is processed: each non-empty string path of the input is either
  gone when the call returns, or its unlink was attempted and failed. Each failure is
  logged: the console gains as many error lines as unlinks failed.
\<close>

theorem deleteFiles_never_throws:
  "\<exists>w'. deleteFiles w v = (Inr (), w')
      \<and> (\<forall>p. JStr p \<in> set (case v of JArray xs \<Rightarrow> xs | x \<Rightarrow> [x]) \<and> p \<noteq> [] \<longrightarrow>
            \<not> existsSync w' p
            \<or> (\<exists>ev\<in>set (new_events w w'). op ev = Unlink p \<and> raised ev \<noteq> None))
      \<and> length (filter (\<lambda>l. fst l = ERROR) (console w'))
          = length (filter (\<lambda>l. fst l = ERROR) (console w))
            + length (filter (\<lambda>ev. raised ev \<noteq> None) (new_events w w'))"
proof -
  from deleteFiles_loop_spec[of w "case v of JArray xs \<Rightarrow> xs | x \<Rightarrow> [x]"]
  obtain w' evs where
    "deleteFiles_loop w (case v of JArray xs \<Rightarrow> xs | x \<Rightarrow> [x]) = (Inr (), w')"
    "trace w' = trace w @ evs"
    "length (filter (\<lambda>l. fst l = ERROR) (console w'))
          = length (filter (\<lambda>l. fst l = ERROR) (console w))
            + length (filter (\<lambda>ev. raised ev \<noteq> None) evs)"
    "\<forall>p. JStr p \<in> set (case v of JArray xs \<Rightarrow> xs | x \<Rightarrow> [x]) \<and> p \<noteq> [] \<longrightarrow>
            \<not> existsSync w' p \<or> (\<exists>ev\<in>set evs. op ev = Unlink p \<and> raised ev \<noteq> None)"
    by blast
  moreover from this have "new_events w w' = evs" by (simp add: new_events_def)
  ultimately show ?thesis unfolding deleteFiles_def by blast
qed

theorem deleteFiles_never_throws_witness:
  "deleteFiles locked_world locked_batch = (Inr (), snd (deleteFiles locked_world locked_batch))
   \<and> existsSync locked_world ''/tmp/up/a.jpg''
   \<and> \<not> existsSync (snd (deleteFiles locked_world locked_batch)) ''/tmp/up/a.jpg''
   \<and> existsSync (snd (deleteFiles locked_world locked_batch)) ''/tmp/up/b.jpg''
   \<and> map (\<lambda>ev. (op ev, raised ev))
         (new_events locked_world (snd (deleteFiles locked_world locked_batch)))
       = [(Unlink ''/tmp/up/b.jpg'', Some (SystemError EACCES (Unlink ''/tmp/up/b.jpg''))),
          (Unlink ''/tmp/up/a.jpg'', None)]
   \<and> console (snd (deleteFiles locked_world locked_batch))
       = [(ERROR, ''Error deleting file /tmp/up/b.jpg:'',
           Some (SystemError EACCES (Unlink ''/tmp/up/b.jpg'')))]"
proof -
  from deleteFiles_never_throws [of locked_world locked_batch]
  obtain w' where "deleteFiles locked_world locked_batch = (Inr (), w')" by blast
  then have run: "deleteFiles locked_world locked_batch
                    = (Inr (), snd (deleteFiles locked_world locked_batch))"
    by simp
  have a: "existsSync locked_world ''/tmp/up/a.jpg''" by code_simp
  have b: "\<not> existsSync (snd (deleteFiles locked_world locked_batch)) ''/tmp/up/a.jpg''"
    by code_simp
  have c: "existsSync (snd (deleteFiles locked_world locked_batch)) ''/tmp/up/b.jpg''"
    by code_simp
  have d: "map (\<lambda>ev. (op ev, raised ev))
             (new_events locked_world (snd (deleteFiles locked_world locked_batch)))
           = [(Unlink ''/tmp/up/b.jpg'', Some (SystemError EACCES (Unlink ''/tmp/up/b.jpg''))),
              (Unlink ''/tmp/up/a.jpg'', None)]"
    by code_simp
  have e: "console (snd (deleteFiles locked_world locked_batch))
           = [(ERROR, ''Error deleting file /tmp/up/b.jpg:'',
               Some (SystemError EACCES (Unlink ''/tmp/up/b.jpg'')))]"
    by code_simp
  from run a b c d e show ?thesis by blast
qed

text \<open>
  Claim C10. \<^verbatim>\<open>deleteFile\<close> returns \<^verbatim>\<open>true\<close> exactly when its argument is a non-empty
  string, something exists at that path and the unlink succeeds (and then nothing exists
  there any more); it returns \<^verbatim>\<open>false\<close>, touching nothing, when the argument is falsy,
  not a string, or names nothing that exists; it throws exactly when the unlink of an
  existing entry fails, and throws that error.
\<close>

theorem deleteFile_outcomes:
  "(fst (deleteFile w v) = Inr True \<longleftrightarrow>
      (\<exists>p. v = JStr p \<and> p \<noteq> [] \<and> existsSync w p \<and> fst (unlink w p) = None))
   \<and> ((\<not> truthy v \<or> \<not> is_string v \<or> (\<exists>p. v = JStr p \<and> \<not> existsSync w p))
        \<longrightarrow> deleteFile w v = (Inr False, w))
   \<and> (fst (deleteFile w v) = Inl e \<longleftrightarrow>
        (\<exists>p. v = JStr p \<and> p \<noteq> [] \<and> existsSync w p \<and> fst (unlink w p) = Some e))
   \<and> (fst (deleteFile w v) = Inr True \<longrightarrow>
        (\<forall>p. v = JStr p \<longrightarrow> \<not> existsSync (snd (deleteFile w v)) p))"
proof (cases v)
  case (JStr p)
  show ?thesis
  proof (cases "unlink w p")
    case (Pair res w1)
    then show ?thesis using JStr unlink_as_ok(1)[of "Unlink p" w p w1]
      by (cases res) (auto simp: deleteFile_def deleteFile_try_def unlink_def)
  qed
qed (simp_all add: deleteFile_def)

theorem deleteFile_outcomes_witness:
  "fst (deleteFile locked_world (JStr ''/tmp/up/a.jpg'')) = Inr True
   \<and> \<not> existsSync (snd (deleteFile locked_world (JStr ''/tmp/up/a.jpg''))) ''/tmp/up/a.jpg''
   \<and> \<not> truthy (JStr [])
   \<and> deleteFile locked_world (JStr []) = (Inr False, locked_world)
   \<and> \<not> is_string (JNum 3)
   \<and> deleteFile locked_world (JNum 3) = (Inr False, locked_world)
   \<and> \<not> existsSync locked_world ''/nope''
   \<and> deleteFile locked_world (JStr ''/nope'') = (Inr False, locked_world)
   \<and> existsSync locked_world ''/tmp/up/b.jpg''
   \<and> fst (unlink locked_world ''/tmp/up/b.jpg'')
       = Some (SystemError EACCES (Unlink ''/tmp/up/b.jpg''))
   \<and> fst (deleteFile locked_world (JStr ''/tmp/up/b.jpg''))
       = Inl (SystemError EACCES (Unlink ''/tmp/up/b.jpg''))"
proof -
  have t: "fst (deleteFile locked_world (JStr ''/tmp/up/a.jpg'')) = Inr True"
    by code_simp
  have n: "\<not> existsSync locked_world ''/nope''" by code_simp
  have b: "existsSync locked_world ''/tmp/up/b.jpg''" by code_simp
  have u: "fst (unlink locked_world ''/tmp/up/b.jpg'')
             = Some (SystemError EACCES (Unlink ''/tmp/up/b.jpg''))"
    by code_simp
  from deleteFile_outcomes [of locked_world "JStr ''/tmp/up/a.jpg''"] t
  have 1: "\<not> existsSync (snd (deleteFile locked_world (JStr ''/tmp/up/a.jpg''))) ''/tmp/up/a.jpg''"
    by blast
  from deleteFile_outcomes [of locked_world "JStr []"]
  have 2: "deleteFile locked_world (JStr []) = (Inr False, locked_world)" by simp
  from deleteFile_outcomes [of locked_world "JNum 3"]
  have 3: "deleteFile locked_world (JNum 3) = (Inr False, locked_world)" by simp
  from deleteFile_outcomes [of locked_world "JStr ''/nope''"] n
  have 4: "deleteFile locked_world (JStr ''/nope'') = (Inr False, locked_world)" by blast
  from deleteFile_outcomes [of locked_world "JStr ''/tmp/up/b.jpg''"
         "SystemError EACCES (Unlink ''/tmp/up/b.jpg'')"] b u
  have 5: "fst (deleteFile locked_world (JStr ''/tmp/up/b.jpg''))
             = Inl (SystemError EACCES (Unlink ''/tmp/up/b.jpg''))"
    by simp
  from t 1 2 3 4 n b u 5 show ?thesis by simp
qed

section \<open>Directory provisioning\<close>

lemma ensureDir_spec:
  assumes "ensureDir w dir = (res, w')"
  shows "(res = Inr dir \<and> existsSync w' dir \<and> cwd w' = cwd w
            \<and> (existsSync w dir \<longrightarrow> w' = w))
         \<or> (\<exists>n. res = Inl (SystemError n (MkdirSync dir True))
               \<and> \<not> existsSync w dir \<and> files w' = files w)"
proof (cases "existsSync w dir")
  case True
  with assms show ?thesis by (simp add: ensureDir_def)
next
  case False
  obtain r w1 where m: "mkdirSync w dir True = (r, w1)" by (cases "mkdirSync w dir True")
  show ?thesis
  proof (cases r)
    case None
    with m False assms mkdirSync_ok(1)[of w dir True w1] mkdirSync_frame(1)[OF m]
    show ?thesis by (simp add: ensureDir_def)
  next
    case (Some e)
    with m False assms mkdirSync_err[of w dir True e w1]
    show ?thesis by (auto simp: ensureDir_def)
  qed
qed

lemma ensure_iter_first:
  assumes "ensure_iter quiet recur dir (st, w) = (res, st', w')"
  shows "res = Inr ()" and "cwd w' = cwd w"
    and "failed st \<le> failed st'"
    and "failed st' = failed st \<Longrightarrow> existsSync w' dir"
    and "\<And>q. existsSync w q \<Longrightarrow> existsSync w' q"
proof -
  obtain r w1 where m: "mkdirSync w dir recur = (r, w1)" by (cases "mkdirSync w dir recur")
  note fr = mkdirSync_frame(1)[OF m]
  show "res = Inr ()" using assms
    by (auto simp: ensure_iter_def ensure_try_def split: prod.splits sum.splits option.splits if_splits)
  show "cwd w' = cwd w" using assms m fr
    by (cases r) (auto simp: ensure_iter_def ensure_try_def split: if_splits)
  show "failed st \<le> failed st'" using assms m
    by (cases r) (auto simp: ensure_iter_def ensure_try_def split: if_splits)
  show "failed st' = failed st \<Longrightarrow> existsSync w' dir"
    using assms m mkdirSync_ok(1)[of w dir recur w1]
    by (cases r) (auto simp: ensure_iter_def ensure_try_def split: if_splits)
  show "\<And>q. existsSync w q \<Longrightarrow> existsSync w' q"
  proof -
    fix q assume q: "existsSync w q"
    show "existsSync w' q"
    proof (cases r)
      case None
      with assms m q mkdirSync_ok(2)[of w dir recur w1 q] show ?thesis
        by (auto simp: ensure_iter_def ensure_try_def split: if_splits)
    next
      case (Some e)
      with m have "files w1 = files w" by (auto dest: mkdirSync_err(1))
      with fr have "existsSync w1 q = existsSync w q" by (intro existsSync_cong)
      with Some assms m q show ?thesis
        by (auto simp: ensure_iter_def ensure_try_def split: if_splits)
    qed
  qed
qed

lemma ensure_loop_first:
  "ensure_loop quiet recur dirs (st, w) = (res, st', w') \<Longrightarrow>
     res = Inr () \<and> cwd w' = cwd w \<and> failed st \<le> failed st'
     \<and> (failed st' = failed st \<longrightarrow> (\<forall>d\<in>set dirs. existsSync w' d))
     \<and> (\<forall>q. existsSync w q \<longrightarrow> existsSync w' q)"
proof (induction dirs arbitrary: st w)
  case Nil
  then show ?case by simp
next
  case (Cons dir dirs)
  obtain r st1 w1 where it: "ensure_iter quiet recur dir (st, w) = (r, st1, w1)"
    by (cases "ensure_iter quiet recur dir (st, w)")
  note i = ensure_iter_first[OF it]
  from Cons.prems it i(1) have rest: "ensure_loop quiet recur dirs (st1, w1) = (res, st', w')"
    by simp
  note h = Cons.IH[OF rest]
  have "failed st' = failed st \<longrightarrow> (\<forall>d\<in>set (dir # dirs). existsSync w' d)"
  proof
    assume eq: "failed st' = failed st"
    with i(3) h have e1: "failed st1 = failed st" and e2: "failed st' = failed st1" by auto
    from i(4)[OF e1] h have "existsSync w' dir" by blast
    moreover from h e2 have "\<forall>d\<in>set dirs. existsSync w' d" by blast
    ultimately show "\<forall>d\<in>set (dir # dirs). existsSync w' d" by simp
  qed
  moreover have "\<forall>q. existsSync w q \<longrightarrow> existsSync w' q" using i(5) h by blast
  moreover have "failed st \<le> failed st'" using i(3) h by auto
  moreover have "cwd w' = cwd w" using i(2) h by simp
  ultimately show ?case using h by blast
qed

lemma ensure_loop_second:
  "\<forall>d\<in>set dirs. existsSync w d \<Longrightarrow>
     \<exists>w'. ensure_loop quiet recur dirs (st, w)
             = (Inr (), st\<lparr>existing := existing st + length dirs\<rparr>, w')
          \<and> files w' = files w \<and> trace w' = trace w \<and> cwd w' = cwd w"
proof (induction dirs arbitrary: st w)
  case Nil
  then show ?case by simp
next
  case (Cons dir dirs)
  define w1 where "w1 = (if \<not> quiet then console_log (''Directory already exists: '' @ dir) w else w)"
  have it: "ensure_iter quiet recur dir (st, w) = (Inr (), st\<lparr>existing := existing st + 1\<rparr>, w1)"
    using Cons.prems by (simp add: ensure_iter_def ensure_try_def w1_def)
  have fr: "files w1 = files w" "trace w1 = trace w" "cwd w1 = cwd w" by (simp_all add: w1_def)
  then have "\<forall>d\<in>set dirs. existsSync w1 d" using Cons.prems existsSync_cong[of w1 w] by simp
  from Cons.IH[OF this, of "st\<lparr>existing := existing st + 1\<rparr>"] it fr
  show ?case by auto
qed

text \<open>
  Claim C3. Provisioning is idempotent. After a call of \<^verbatim>\<open>ensureDirectoriesExist\<close> in
  which no directory failed, a second call on the same paths (whatever the options of
  either call) counts every path as existing, creates nothing, fails nothing, makes no
  file-system call and leaves the file table as it was. Likewise a second \<^verbatim>\<open>ensureDir\<close>
  after one that returned is a no-op that returns the path.
\<close>

theorem provisioning_idempotent:
  "(ensureDirectoriesExist w dirs o1 = (Inr st1, w1) \<and> failed st1 = 0 \<longrightarrow>
      (\<exists>w2. ensureDirectoriesExist w1 dirs o2
               = (Inr \<lparr>created = 0, existing = length dirs, failed = 0\<rparr>, w2)
          \<and> files w2 = files w1 \<and> trace w2 = trace w1))
   \<and> (ensureDir w dir = (Inr d, w1') \<longrightarrow> ensureDir w1' dir = (Inr dir, w1'))"
proof (intro conjI impI)
  assume a: "ensureDirectoriesExist w dirs o1 = (Inr st1, w1) \<and> failed st1 = 0"
  define q1 where "q1 = (case silent o1 of None \<Rightarrow> False | Some b \<Rightarrow> b)"
  define r1 where "r1 = (case recursive o1 of None \<Rightarrow> True | Some b \<Rightarrow> b)"
  define wa where "wa = (if \<not> q1 then console_log ''Ensuring required directories exist...'' w else w)"
  obtain res sta wb where l: "ensure_loop q1 r1 dirs (\<lparr>created = 0, existing = 0, failed = 0\<rparr>, wa) = (res, sta, wb)"
    by (cases "ensure_loop q1 r1 dirs (\<lparr>created = 0, existing = 0, failed = 0\<rparr>, wa)")
  note f = ensure_loop_first[OF l]
  from a l f have st: "sta = st1" and w1: "w1 = (if \<not> q1 then console_log ''Directory check completed.'' wb else wb)"
    by (auto simp: ensureDirectoriesExist_def Let_def q1_def r1_def wa_def)
  from f st a have ex: "\<forall>d\<in>set dirs. existsSync wb d" by simp
  define q2 where "q2 = (case silent o2 of None \<Rightarrow> False | Some b \<Rightarrow> b)"
  define r2 where "r2 = (case recursive o2 of None \<Rightarrow> True | Some b \<Rightarrow> b)"
  define wc where "wc = (if \<not> q2 then console_log ''Ensuring required directories exist...'' w1 else w1)"
  have "\<forall>d\<in>set dirs. existsSync wc d" using ex by (simp add: wc_def w1)
  from ensure_loop_second[OF this, of q2 r2 "\<lparr>created = 0, existing = 0, failed = 0\<rparr>"]
  obtain wd where l2: "ensure_loop q2 r2 dirs (\<lparr>created = 0, existing = 0, failed = 0\<rparr>, wc)
             = (Inr (), \<lparr>created = 0, existing = length dirs, failed = 0\<rparr>, wd)"
    and fr: "files wd = files wc" "trace wd = trace wc" by auto
  have "files wc = files w1" "trace wc = trace w1" by (simp_all add: wc_def)
  with l2 fr show "\<exists>w2. ensureDirectoriesExist w1 dirs o2
               = (Inr \<lparr>created = 0, existing = length dirs, failed = 0\<rparr>, w2)
          \<and> files w2 = files w1 \<and> trace w2 = trace w1"
    by (auto simp: ensureDirectoriesExist_def Let_def q2_def r2_def wc_def)
next
  assume "ensureDir w dir = (Inr d, w1')"
  from ensureDir_spec[OF this] have "existsSync w1' dir" by auto
  then show "ensureDir w1' dir = (Inr dir, w1')" by (simp add: ensureDir_def)
qed

theorem provisioning_idempotent_witness:
  "ensureDirectoriesExist upload_world sample_dirs default_options
     = (Inr \<lparr>created = 1, existing = 1, failed = 0\<rparr>,
        snd (ensureDirectoriesExist upload_world sample_dirs default_options))
   \<and> (\<exists>w2. ensureDirectoriesExist
               (snd (ensureDirectoriesExist upload_world sample_dirs default_options))
               sample_dirs default_options
             = (Inr \<lparr>created = 0, existing = 2, failed = 0\<rparr>, w2)
           \<and> files w2 = files (snd (ensureDirectoriesExist upload_world sample_dirs default_options))
           \<and> trace w2 = trace (snd (ensureDirectoriesExist upload_world sample_dirs default_options)))
   \<and> ensureDir upload_world ''/data/a''
       = (Inr ''/data/a'', snd (ensureDir upload_world ''/data/a''))
   \<and> \<not> existsSync upload_world ''/data/a''
   \<and> ensureDir (snd (ensureDir upload_world ''/data/a'')) ''/data/a''
       = (Inr ''/data/a'', snd (ensureDir upload_world ''/data/a''))"
proof -
  have r: "fst (ensureDirectoriesExist upload_world sample_dirs default_options)
             = Inr \<lparr>created = 1, existing = 1, failed = 0\<rparr>"
    by code_simp
  then have run: "ensureDirectoriesExist upload_world sample_dirs default_options
     = (Inr \<lparr>created = 1, existing = 1, failed = 0\<rparr>,
        snd (ensureDirectoriesExist upload_world sample_dirs default_options))"
    by (cases "ensureDirectoriesExist upload_world sample_dirs default_options") simp
  have e: "fst (ensureDir upload_world ''/data/a'') = Inr ''/data/a''"
    by code_simp
  then have erun: "ensureDir upload_world ''/data/a''
       = (Inr ''/data/a'', snd (ensureDir upload_world ''/data/a''))"
    by (cases "ensureDir upload_world ''/data/a''") simp
  have n: "\<not> existsSync upload_world ''/data/a''" by code_simp
  have len: "length sample_dirs = 2" by (simp add: sample_dirs_def)
  from provisioning_idempotent [of upload_world sample_dirs default_options
         "\<lparr>created = 1, existing = 1, failed = 0\<rparr>"
         "snd (ensureDirectoriesExist upload_world sample_dirs default_options)"
         default_options "''/data/a''" "''/data/a''" "snd (ensureDir upload_world ''/data/a'')"]
       run erun n len
  show ?thesis by simp
qed

text \<open>
  Claim C7, as amended. \<^verbatim>\<open>getUploadDir\<close> joins the base directory with the subpath
  \<^verbatim>\<open>user_<userId>/memory_<memoryId>\<close> (the two nested joins of the code give the same
  path as one join with that subpath), where the base is
  \<^verbatim>\<open>UPLOAD_DIR\<close> when that variable is set to a non-empty string and the configured
  temporary-photos directory otherwise (also when \<^verbatim>\<open>UPLOAD_DIR\<close> is set but empty).
  When it returns, it returns that path and something exists there; the only other outcome
  is that the directory was missing and \<^verbatim>\<open>mkdirSync\<close> failed, and then that error is
  thrown.
\<close>

theorem getUploadDir_path:
  assumes "getUploadDir w userId memoryId = (res, w')"
    and "(\<exists>u. UPLOAD_DIR w = Some u \<and> u \<noteq> [] \<and> base = u)
         \<or> ((UPLOAD_DIR w = None \<or> UPLOAD_DIR w = Some []) \<and> base = TEMP_PHOTOS_DIR w)"
    and "dir = path_join base (''user_'' @ userId @ ''/'' @ ''memory_'' @ memoryId)"
  shows "(res = Inr dir \<and> existsSync w' dir)
         \<or> (\<exists>n. res = Inl (SystemError n (MkdirSync dir True))
               \<and> \<not> existsSync w dir \<and> files w' = files w)"
proof -
  from assms(2) have "(case UPLOAD_DIR w of None \<Rightarrow> TEMP_PHOTOS_DIR w
                       | Some u \<Rightarrow> if u = [] then TEMP_PHOTOS_DIR w else u) = base"
    by auto
  moreover have "path_join (path_join base (''user_'' @ userId)) (''memory_'' @ memoryId)
                   = path_join base ((''user_'' @ userId) @ ''/'' @ (''memory_'' @ memoryId))"
    by (rule path_join_nested) simp_all
  then have "path_join (path_join base (''user_'' @ userId)) (''memory_'' @ memoryId) = dir"
    unfolding assms(3) by simp
  ultimately have "ensureDir w dir = (res, w')"
    using assms(1) by (simp add: getUploadDir_def Let_def)
  from ensureDir_spec[OF this] show ?thesis by blast
qed

theorem getUploadDir_path_witness:
  "getUploadDir upload_world ''1'' ''2''
     = (Inr ''/tmp/photos/user_1/memory_2'', snd (getUploadDir upload_world ''1'' ''2''))
   \<and> UPLOAD_DIR upload_world = None
   \<and> TEMP_PHOTOS_DIR upload_world = ''/tmp/photos''
   \<and> path_join ''/tmp/photos'' (''user_'' @ ''1'' @ ''/'' @ ''memory_'' @ ''2'')
       = ''/tmp/photos/user_1/memory_2''
   \<and> \<not> existsSync upload_world ''/tmp/photos/user_1/memory_2''
   \<and> existsSync (snd (getUploadDir upload_world ''1'' ''2'')) ''/tmp/photos/user_1/memory_2''"
proof -
  have r: "fst (getUploadDir upload_world ''1'' ''2'') = Inr ''/tmp/photos/user_1/memory_2''"
    by code_simp
  then have run: "getUploadDir upload_world ''1'' ''2''
     = (Inr ''/tmp/photos/user_1/memory_2'', snd (getUploadDir upload_world ''1'' ''2''))"
    by (cases "getUploadDir upload_world ''1'' ''2''") simp
  have u: "UPLOAD_DIR upload_world = None" and t: "TEMP_PHOTOS_DIR upload_world = ''/tmp/photos''"
    by (simp_all add: upload_world_def)
  have j: "path_join ''/tmp/photos'' (''user_'' @ ''1'' @ ''/'' @ ''memory_'' @ ''2'')
             = ''/tmp/photos/user_1/memory_2''"
    by code_simp
  have n: "\<not> existsSync upload_world ''/tmp/photos/user_1/memory_2''" by code_simp
  have b: "(\<exists>u. UPLOAD_DIR upload_world = Some u \<and> u \<noteq> [] \<and> ''/tmp/photos'' = u)
           \<or> ((UPLOAD_DIR upload_world = None \<or> UPLOAD_DIR upload_world = Some [])
               \<and> ''/tmp/photos'' = TEMP_PHOTOS_DIR upload_world)"
    using u t by simp
  from getUploadDir_path [OF run b j [symmetric]]
  have "existsSync (snd (getUploadDir upload_world ''1'' ''2'')) ''/tmp/photos/user_1/memory_2''"
    by simp
  with run u t j n show ?thesis by simp
qed

text \<open>
  Claim C7 as stated fails: with \<^verbatim>\<open>UPLOAD_DIR\<close> set to the empty string the variable is
  set, yet the code falls through \<^verbatim>\<open>||\<close> to the temporary-photos directory, so the
  result is not the path joined from \<^verbatim>\<open>UPLOAD_DIR\<close>.
\<close>

theorem getUploadDir_blank_env_counterexample:
  "UPLOAD_DIR blank_env_world = Some []
   \<and> fst (getUploadDir blank_env_world ''1'' ''2'') = Inr ''/tmp/photos/user_1/memory_2''
   \<and> path_join [] (''user_'' @ ''1'' @ ''/'' @ ''memory_'' @ ''2'') = ''user_1/memory_2''
   \<and> fst (getUploadDir blank_env_world ''1'' ''2'')
       \<noteq> Inr (path_join [] (''user_'' @ ''1'' @ ''/'' @ ''memory_'' @ ''2''))"
proof -
  have u: "UPLOAD_DIR blank_env_world = Some []"
    by (simp add: blank_env_world_def)
  have r: "fst (getUploadDir blank_env_world ''1'' ''2'') = Inr ''/tmp/photos/user_1/memory_2''"
    by code_simp
  have j: "path_join [] (''user_'' @ ''1'' @ ''/'' @ ''memory_'' @ ''2'') = ''user_1/memory_2''"
    by code_simp
  from u r j show ?thesis by simp
qed

section \<open>Deleting a file and pruning its directory\<close>

lemma new_events_append: "trace w' = trace w @ evs \<Longrightarrow> new_events w w' = evs"
  by (simp add: new_events_def)

lemma unlink_as_all:
  "unlink_as c w p = (res, w') \<Longrightarrow>
     cwd w' = cwd w \<and> console w' = console w
     \<and> trace w' = trace w @ [\<lparr>op = c, before = files w, raised = res\<rparr>]
     \<and> (case res of
          None \<Rightarrow> \<exists>k. resolve (cwd w) p = Some k \<and> k \<noteq> [] \<and> files w' = remove_entry (files w) k
        | Some e \<Rightarrow> files w' = files w)"
  by (cases res) (auto dest: unlink_as_frame unlink_as_ok(2) unlink_as_err(1))

lemma readdir_all:
  "readdir w p = (res, w') \<Longrightarrow>
     cwd w' = cwd w \<and> console w' = console w \<and> files w' = files w
     \<and> trace w' = trace w @ [\<lparr>op = Readdir p, before = files w,
            raised = (case res of Inl e \<Rightarrow> Some e | Inr n \<Rightarrow> None)\<rparr>]
     \<and> (\<forall>xs. res = Inr xs \<longrightarrow> (\<exists>k. resolve (cwd w) p = Some k \<and> xs = children (files w) k))"
  using readdir_frame[of w p res w'] by blast

lemma rmdir_all:
  "rmdir w p = (res, w') \<Longrightarrow>
     cwd w' = cwd w \<and> console w' = console w
     \<and> trace w' = trace w @ [\<lparr>op = Rmdir p, before = files w, raised = res\<rparr>]"
  using rmdir_frame[of w p res w'] by blast

lemma deleteFileAndEmptyParent_try_rmdir:
  assumes "deleteFileAndEmptyParent_try w p = (res, w')"
    and "ev \<in> set (new_events w w')" and "op ev = Rmdir d"
  shows "\<exists>kp k. resolve (cwd w) p = Some kp \<and> d = path_dirname p
           \<and> resolve (cwd w) d = Some k
           \<and> before ev = remove_entry (files w) kp
           \<and> children (before ev) k = []"
proof (cases "existsSync w p")
  case False
  with assms show ?thesis by (simp add: deleteFileAndEmptyParent_try_def new_events_def)
next
  case True
  obtain r1 w1 where u: "unlink w p = (r1, w1)" by (cases "unlink w p")
  note u1 = unlink_as_all[OF u[unfolded unlink_def]]
  show ?thesis
  proof (cases r1)
    case (Some e)
    with True u assms(1) have "trace w' = trace w1"
      by (auto simp: deleteFileAndEmptyParent_try_def)
    with u1 Some have "new_events w w' = [\<lparr>op = Unlink p, before = files w, raised = Some e\<rparr>]"
      by (simp add: new_events_def)
    with assms(2,3) show ?thesis by simp
  next
    case None
    with u1 obtain kp where kp: "resolve (cwd w) p = Some kp" "files w1 = remove_entry (files w) kp"
      by auto
    define w3 where "w3 = console_log (''[deleteFileAndEmptyParent] Checking parent directory: ''
                                      @ path_dirname p)
         (console_log (''[deleteFileAndEmptyParent] File deleted successfully: '' @ p) w1)"
    obtain r4 w4 where rd: "readdir w3 (path_dirname p) = (r4, w4)"
      by (cases "readdir w3 (path_dirname p)")
    note r1 = readdir_all[OF rd]
    have t3: "trace w3 = trace w @ [\<lparr>op = Unlink p, before = files w, raised = None\<rparr>]"
      and f3: "files w3 = files w1" and c3: "cwd w3 = cwd w"
      using u1 None by (simp_all add: w3_def)
    show ?thesis
    proof (cases r4)
      case (Inl e)
      with True u None rd assms(1) have "trace w' = trace w4"
        by (auto simp: deleteFileAndEmptyParent_try_def Let_def w3_def)
      with r1 t3 Inl have "new_events w w' = [\<lparr>op = Unlink p, before = files w, raised = None\<rparr>,
           \<lparr>op = Readdir (path_dirname p), before = files w3, raised = Some e\<rparr>]"
        by (simp add: new_events_def)
      with assms(2,3) show ?thesis by auto
    next
      case (Inr remaining)
      with r1 c3 f3 obtain k where k: "resolve (cwd w) (path_dirname p) = Some k"
          "remaining = children (files w1) k" by auto
      define w6 where "w6 = console_log (''[deleteFileAndEmptyParent] Remaining files in directory: ''
                                           @ join_with '','' remaining)
          (console_log (''[deleteFileAndEmptyParent] Directory contents before deletion: ''
                                 @ join_with '','' remaining) w4)"
      have t6: "trace w6 = trace w @ [\<lparr>op = Unlink p, before = files w, raised = None\<rparr>,
           \<lparr>op = Readdir (path_dirname p), before = files w3, raised = None\<rparr>]"
        and f6: "files w6 = files w1"
        using r1 t3 f3 Inr by (simp_all add: w6_def)
      show ?thesis
      proof (cases "remaining = []")
        case False
        with True u None rd Inr assms(1) have "w' = w6"
          by (auto simp: deleteFileAndEmptyParent_try_def Let_def w3_def w6_def)
        with t6 have "new_events w w' = [\<lparr>op = Unlink p, before = files w, raised = None\<rparr>,
           \<lparr>op = Readdir (path_dirname p), before = files w3, raised = None\<rparr>]"
          by (simp add: new_events_def)
        with assms(2,3) show ?thesis by auto
      next
        case empty: True
        obtain r7 w7 where rm: "rmdir w6 (path_dirname p) = (r7, w7)"
          by (cases "rmdir w6 (path_dirname p)")
        note m1 = rmdir_all[OF rm]
        from True u None rd Inr empty rm assms(1) have "trace w' = trace w7"
          by (cases r7) (auto simp: deleteFileAndEmptyParent_try_def Let_def w3_def w6_def)
        with m1 t6 have "new_events w w' = [\<lparr>op = Unlink p, before = files w, raised = None\<rparr>,
           \<lparr>op = Readdir (path_dirname p), before = files w3, raised = None\<rparr>,
           \<lparr>op = Rmdir (path_dirname p), before = files w6, raised = r7\<rparr>]"
          by (simp add: new_events_def)
        with assms(2,3) have "ev = \<lparr>op = Rmdir (path_dirname p), before = files w6, raised = r7\<rparr>"
          by auto
        with assms(3) kp k f6 empty show ?thesis by auto
      qed
    qed
  qed
qed

text \<open>
  Claim C4. In a call of \<^verbatim>\<open>deleteFileAndEmptyParent\<close> the \<^verbatim>\<open>rmdir\<close> step is reached
  only for the parent directory of the given path and only when that directory has no
  entry left after the file has been unlinked: the file table the \<^verbatim>\<open>rmdir\<close> finds is the
  initial one without the file, and the directory has no child in it.
\<close>

theorem rmdir_only_when_empty:
  assumes "deleteFileAndEmptyParent w v = (res, w')"
    and "ev \<in> set (new_events w w')" and "op ev = Rmdir d"
  shows "\<exists>p kp k. v = JStr p \<and> resolve (cwd w) p = Some kp \<and> d = path_dirname p
           \<and> resolve (cwd w) d = Some k
           \<and> before ev = remove_entry (files w) kp
           \<and> children (before ev) k = []"
proof (cases "truthy v \<and> is_string v")
  case False
  with assms show ?thesis by (auto simp: deleteFileAndEmptyParent_def new_events_def)
next
  case True
  then obtain p where v: "v = JStr p" by (cases v) auto
  obtain r1 w1 where t: "deleteFileAndEmptyParent_try w p = (r1, w1)"
    by (cases "deleteFileAndEmptyParent_try w p")
  with True v assms(1) have "trace w' = trace w1"
    by (cases r1) (auto simp: deleteFileAndEmptyParent_def)
  then have "new_events w w' = new_events w w1" by (simp add: new_events_def)
  with assms(2) have "ev \<in> set (new_events w w1)" by simp
  from deleteFileAndEmptyParent_try_rmdir[OF t this assms(3)] v show ?thesis by blast
qed

theorem rmdir_only_when_empty_witness:
  "\<lparr>op = Rmdir ''/tmp/up'', before = [([''tmp''], 0), ([''tmp'', ''up''], 0)], raised = None\<rparr>
     \<in> set (new_events upload_world
              (snd (deleteFileAndEmptyParent upload_world (JStr ''/tmp/up/a.jpg''))))
   \<and> children [([''tmp''], 0), ([''tmp'', ''up''], 0)] [''tmp'', ''up''] = []
   \<and> (\<exists>p kp k. JStr ''/tmp/up/a.jpg'' = JStr p \<and> resolve (cwd upload_world) p = Some kp
          \<and> ''/tmp/up'' = path_dirname p \<and> resolve (cwd upload_world) ''/tmp/up'' = Some k
          \<and> [([''tmp''], 0), ([''tmp'', ''up''], 0)] = remove_entry (files upload_world) kp
          \<and> children [([''tmp''], 0), ([''tmp'', ''up''], 0)] k = [])
   \<and> \<not> existsSync (snd (deleteFileAndEmptyParent upload_world (JStr ''/tmp/up/a.jpg''))) ''/tmp/up''
   \<and> map op (new_events locked_world
                (snd (deleteFileAndEmptyParent locked_world (JStr ''/tmp/up/a.jpg''))))
       = [Unlink ''/tmp/up/a.jpg'', Readdir ''/tmp/up'']
   \<and> existsSync (snd (deleteFileAndEmptyParent locked_world (JStr ''/tmp/up/a.jpg''))) ''/tmp/up''"
proof -
  have run: "deleteFileAndEmptyParent upload_world (JStr ''/tmp/up/a.jpg'')
               = (fst (deleteFileAndEmptyParent upload_world (JStr ''/tmp/up/a.jpg'')),
                  snd (deleteFileAndEmptyParent upload_world (JStr ''/tmp/up/a.jpg'')))"
    by simp
  have ev: "\<lparr>op = Rmdir ''/tmp/up'', before = [([''tmp''], 0), ([''tmp'', ''up''], 0)],
              raised = None\<rparr>
     \<in> set (new_events upload_world
              (snd (deleteFileAndEmptyParent upload_world (JStr ''/tmp/up/a.jpg''))))"
    by code_simp
  have ch: "children [([''tmp''], 0), ([''tmp'', ''up''], 0)] [''tmp'', ''up''] = []"
    by code_simp
  have gone: "\<not> existsSync (snd (deleteFileAndEmptyParent upload_world (JStr ''/tmp/up/a.jpg'')))
                 ''/tmp/up''"
    by code_simp
  have kept: "map op (new_events locked_world
                (snd (deleteFileAndEmptyParent locked_world (JStr ''/tmp/up/a.jpg''))))
       = [Unlink ''/tmp/up/a.jpg'', Readdir ''/tmp/up'']"
    by code_simp
  have still: "existsSync (snd (deleteFileAndEmptyParent locked_world (JStr ''/tmp/up/a.jpg'')))
                 ''/tmp/up''"
    by code_simp
  from rmdir_only_when_empty [OF run ev, of "''/tmp/up''"]
  have "\<exists>p kp k. JStr ''/tmp/up/a.jpg'' = JStr p \<and> resolve (cwd upload_world) p = Some kp
          \<and> ''/tmp/up'' = path_dirname p \<and> resolve (cwd upload_world) ''/tmp/up'' = Some k
          \<and> [([''tmp''], 0), ([''tmp'', ''up''], 0)] = remove_entry (files upload_world) kp
          \<and> children [([''tmp''], 0), ([''tmp'', ''up''], 0)] k = []"
    by simp
  with ev ch gone kept still show ?thesis by blast
qed

section \<open>Image processing: the order of events\<close>

lemma unlink_original_all:
  assumes "unlink_original w orig = (r, w')"
  shows "cwd w' = cwd w \<and>
         (\<exists>ul. trace w' = trace w @ ul
            \<and> (ul = [] \<and> r = None
                \<or> (\<exists>p b. orig = Some p \<and> ul = [\<lparr>op = UnlinkSync p, before = b, raised = r\<rparr>])))"
proof (cases "\<exists>p. orig = Some p \<and> existsSync w p")
  case False
  with assms have "r = None" "w' = w" by (auto simp: unlink_original_def split: option.splits)
  then show ?thesis by simp
next
  case True
  then obtain p where p: "orig = Some p" "existsSync w p" by blast
  with assms have "unlink_as (UnlinkSync p)
                     (console_log (''[processImage] Deleting original temporary file: '' @ p) w) p
                   = (r, w')"
    by (simp add: unlink_original_def unlinkSync_def)
  from unlink_as_frame(1,6)[OF this] p show ?thesis by simp
qed

lemma processImage_try_trace:
  assumes run: "processImage_try w orig out wd ht q = (res, w')"
  shows "cwd w' = cwd w \<and>
    (\<exists>evs. trace w' = trace w @ evs \<and>
      (case res of
         Inr r \<Rightarrow>
           (\<exists>ul. map op evs = [SharpMetadata orig, SharpToFile orig wd ht q out] @ ul @ [Stat out]
                 \<and> (ul = [] \<or> (\<exists>p. orig = Some p \<and> ul = [UnlinkSync p])))
           \<and> (\<forall>ev\<in>set evs. raised ev = None)
           \<and> processedPath r = out \<and> existsSync w' out
       | Inl e \<Rightarrow>
           (\<exists>pre lastev. evs = pre @ [lastev] \<and> raised lastev = Some e
                 \<and> (\<forall>ev\<in>set pre. raised ev = None))))"
proof -
  define w1 where "w1 = console_log (''[processImage] Attempting to get metadata for: ''
                              @ show_opt orig) w"
  obtain r2 w2 where m: "sharp_metadata w1 orig = (r2, w2)" by (cases "sharp_metadata w1 orig")
  note mf = sharp_metadata_frame[OF m]
  have t2: "trace w2 = trace w @ [\<lparr>op = SharpMetadata orig, before = files w1,
            raised = (case r2 of Inl e \<Rightarrow> Some e | Inr n \<Rightarrow> None)\<rparr>]"
    and c2: "cwd w2 = cwd w"
    using mf by (simp_all add: w1_def)
  show ?thesis
  proof (cases r2)
    case (Inl e)
    with run m have "res = Inl e" "trace w' = trace w2" "cwd w' = cwd w2"
      by (auto simp: processImage_try_def Let_def w1_def)
    with t2 c2 Inl show ?thesis
      by (auto intro!: exI[of _ "[\<lparr>op = SharpMetadata orig, before = files w1, raised = Some e\<rparr>]"]
                       exI[of _ "[]"])
  next
    case (Inr info)
    define w4 where "w4 = console_log (''[processImage] Attempting to resize and convert to WebP: ''
                                   @ show_opt orig)
                   (console_log ''[processImage] Successfully retrieved metadata:'' w2)"
    obtain r5 w5 where tf: "sharp_toFile w4 orig wd ht q out = (r5, w5)"
      by (cases "sharp_toFile w4 orig wd ht q out")
    note tff = sharp_toFile_frame[OF tf]
    define e1 where "e1 = \<lparr>op = SharpMetadata orig, before = files w1, raised = None\<rparr>"
    define e2 where "e2 = \<lparr>op = SharpToFile orig wd ht q out, before = files w4, raised = r5\<rparr>"
    have t5: "trace w5 = trace w @ [e1, e2]" and c5: "cwd w5 = cwd w"
      using tff t2 c2 Inr by (simp_all add: w4_def e1_def e2_def)
    show ?thesis
    proof (cases r5)
      case (Some e)
      with run m Inr tf have "res = Inl e" "w' = w5"
        by (auto simp: processImage_try_def Let_def w1_def w4_def)
      with t5 c5 Some show ?thesis
        by (auto simp: e1_def e2_def intro!: exI[of _ "[e1, e2]"] exI[of _ "[e1]"])
    next
      case None
      define w6 where "w6 = console_log (''[processImage] Successfully processed and saved to: ''
                                        @ out) w5"
      obtain r7 w7 where u: "unlink_original w6 orig = (r7, w7)"
        by (cases "unlink_original w6 orig")
      from unlink_original_all[OF u] t5 c5
      obtain ul where t7: "trace w7 = trace w @ [e1, e2] @ ul" and c7: "cwd w7 = cwd w"
        and ul: "ul = [] \<and> r7 = None
                  \<or> (\<exists>p b. orig = Some p \<and> ul = [\<lparr>op = UnlinkSync p, before = b, raised = r7\<rparr>])"
        by (auto simp: w6_def)
      show ?thesis
      proof (cases r7)
        case (Some e)
        with run m Inr tf None u have "res = Inl e" "w' = w7"
          by (auto simp: processImage_try_def Let_def w1_def w4_def w6_def)
        moreover from ul Some obtain p b where
          "ul = [\<lparr>op = UnlinkSync p, before = b, raised = Some e\<rparr>]" by auto
        ultimately show ?thesis using t7 c7 None
          by (auto simp: e1_def e2_def intro!: exI[of _ "[e1, e2] @ ul"] exI[of _ "[e1, e2]"])
      next
        case noerr: None
        obtain r8 w8 where s: "stat_size w7 out = (r8, w8)" by (cases "stat_size w7 out")
        note sf = stat_size_frame[OF s]
        define e4 where "e4 = \<lparr>op = Stat out, before = files w7,
            raised = (case r8 of Inl e \<Rightarrow> Some e | Inr n \<Rightarrow> None)\<rparr>"
        have t8: "trace w8 = trace w @ ([e1, e2] @ ul @ [e4])" and c8: "cwd w8 = cwd w"
          using sf t7 c7 by (simp_all add: e4_def)
        have ulnone: "\<forall>ev\<in>set ul. raised ev = None" using ul noerr by auto
        show ?thesis
        proof (cases r8)
          case (Inl e)
          with run m Inr tf None u noerr s have "res = Inl e" "w' = w8"
            by (auto simp: processImage_try_def Let_def w1_def w4_def w6_def)
          with t8 c8 None ulnone Inl show ?thesis
            by (auto simp: e1_def e2_def e4_def
                intro!: exI[of _ "[e1, e2] @ ul @ [e4]"] exI[of _ "[e1, e2] @ ul"])
        next
          case (Inr n)
          with run m \<open>r2 = Inr info\<close> tf None u noerr s
          have res: "res = Inr \<lparr>processedPath = out,
                               metadata = \<lparr>out_width = md_width info,
                                           out_height = md_height info,
                                           out_format = ''webp'',
                                           originalFormat = md_format info,
                                           out_size = n\<rparr>\<rparr>"
            and w': "w' = console_log (''[processImage] New file size: ''
                                         @ show_nat n @ '' bytes'') w8"
            by (auto simp: processImage_try_def Let_def w1_def w4_def w6_def)
          have ex: "existsSync w' out" using sf(5)[OF Inr] stat_size_exists[OF s, of out] w' by simp
          have ops: "map op ([e1, e2] @ ul @ [e4])
                      = [SharpMetadata orig, SharpToFile orig wd ht q out] @ map op ul @ [Stat out]"
            by (simp add: e1_def e2_def e4_def)
          have ulshape: "map op ul = [] \<or> (\<exists>p. orig = Some p \<and> map op ul = [UnlinkSync p])"
            using ul by auto
          have allnone: "\<forall>ev\<in>set ([e1, e2] @ ul @ [e4]). raised ev = None"
            using ulnone None Inr by (auto simp: e1_def e2_def e4_def)
          from res w' t8 c8 ex ops ulshape allnone show ?thesis
            by (auto intro!: exI[of _ "[e1, e2] @ ul @ [e4]"] exI[of _ "map op ul"])
        qed
      qed
    qed
  qed
qed

lemma ensureDir_trace:
  assumes "ensureDir w dir = (res, w')"
  shows "cwd w' = cwd w \<and>
         (\<exists>mk. trace w' = trace w @ mk
            \<and> (mk = [] \<and> res = Inr dir
                \<or> (\<exists>r. mk = [\<lparr>op = MkdirSync dir True, before = files w, raised = r\<rparr>]
                       \<and> (case r of None \<Rightarrow> res = Inr dir | Some e \<Rightarrow> res = Inl e))))"
proof (cases "existsSync w dir")
  case True
  with assms show ?thesis by (simp add: ensureDir_def)
next
  case False
  obtain r w1 where m: "mkdirSync w dir True = (r, w1)" by (cases "mkdirSync w dir True")
  from False assms m have "w' = w1" "case r of None \<Rightarrow> res = Inr dir | Some e \<Rightarrow> res = Inl e"
    by (auto simp: ensureDir_def split: option.splits)
  with mkdirSync_frame(1,6)[OF m] show ?thesis by simp
qed

lemma processImage_catch_all:
  assumes "processImage_catch w orig out error = (thrown, w')"
  shows "cwd w' = cwd w \<and>
    (\<exists>cl. trace w' = trace w @ cl \<and>
      (thrown = error \<and> \<not> existsSync w' out
         \<and> (cl = [] \<or> cl = [\<lparr>op = UnlinkSync out, before = files w, raised = None\<rparr>])
       \<or> (\<exists>n. thrown = SystemError n (UnlinkSync out) \<and> existsSync w' out
              \<and> cl = [\<lparr>op = UnlinkSync out, before = files w, raised = Some thrown\<rparr>])))"
proof (cases "existsSync w out")
  case False
  with assms show ?thesis by (auto simp: processImage_catch_def Let_def)
next
  case True
  define w4 where "w4 = console_log (''[processImage] Cleaning up partially created file: '' @ out)
      (console_error (''[processImage] Error during image processing for ''
                                @ show_opt orig @ '':'') (Some error) w)"
  obtain r w5 where u: "unlink_as (UnlinkSync out) w4 out = (r, w5)"
    by (cases "unlink_as (UnlinkSync out) w4 out")
  note fr = unlink_as_frame(1,6)[OF u]
  have ex4: "existsSync w4 out" using True by (simp add: w4_def)
  show ?thesis
  proof (cases r)
    case None
    with assms True u have "thrown = error" "w' = w5"
      by (auto simp: processImage_catch_def Let_def unlinkSync_def w4_def)
    with None fr unlink_as_ok(1)[of "UnlinkSync out" w4 out w5] u show ?thesis
      by (simp add: w4_def)
  next
    case (Some e)
    with assms True u have th: "thrown = e" "w' = w5"
      by (auto simp: processImage_catch_def Let_def unlinkSync_def w4_def)
    from Some u have "files w5 = files w4" "\<exists>n. e = SystemError n (UnlinkSync out)"
      by (auto dest: unlink_as_err)
    with fr ex4 existsSync_cong[of w5 w4 out] th Some show ?thesis
      by (auto simp: w4_def)
  qed
qed

lemma processImage_run:
  assumes run: "processImage w options = (res, w')"
    and ok: "\<not> falsy (targetDir options)" "\<not> falsy (baseName options)"
    and td: "td = show_opt (targetDir options)"
    and out: "out = path_join td (show_opt (baseName options) @ ''.webp'')"
    and orig: "orig = inputPath options"
    and wd: "wd = (case width options of None \<Rightarrow> 2000 | Some n \<Rightarrow> n)"
    and ht: "ht = (case height options of None \<Rightarrow> 2000 | Some n \<Rightarrow> n)"
    and q: "q = (case quality options of None \<Rightarrow> 85 | Some n \<Rightarrow> n)"
  shows "\<exists>mk tevs cl. new_events w w' = mk @ tevs @ cl
    \<and> (mk = [] \<or> (\<exists>b r. mk = [\<lparr>op = MkdirSync td True, before = b, raised = r\<rparr>]))
    \<and> (case res of
         Inr r \<Rightarrow>
           (\<forall>ev\<in>set mk. raised ev = None) \<and> cl = []
           \<and> (\<exists>ul. map op tevs
                       = [SharpMetadata orig, SharpToFile orig wd ht q out] @ ul @ [Stat out]
                 \<and> (ul = [] \<or> (\<exists>p. orig = Some p \<and> ul = [UnlinkSync p])))
           \<and> (\<forall>ev\<in>set tevs. raised ev = None)
           \<and> processedPath r = out \<and> existsSync w' out
       | Inl thrown \<Rightarrow>
           (tevs = [] \<and> cl = []
              \<and> (\<exists>b. mk = [\<lparr>op = MkdirSync td True, before = b, raised = Some thrown\<rparr>]))
           \<or> ((\<forall>ev\<in>set mk. raised ev = None)
               \<and> (\<exists>e pre lastev. tevs = pre @ [lastev] \<and> raised lastev = Some e
                     \<and> (\<forall>ev\<in>set pre. raised ev = None)
                     \<and> (thrown = e \<and> \<not> existsSync w' out
                          \<and> (cl = [] \<or> (\<exists>b. cl = [\<lparr>op = UnlinkSync out, before = b,
                                                      raised = None\<rparr>]))
                         \<or> (\<exists>n b. thrown = SystemError n (UnlinkSync out) \<and> existsSync w' out
                                \<and> cl = [\<lparr>op = UnlinkSync out, before = b,
                                          raised = Some thrown\<rparr>])))))"
proof -
  define w0 where "w0 = console_log ''[processImage] Received parameters:'' w"
  obtain r1 w1 where e: "ensureDir w0 td = (r1, w1)" by (cases "ensureDir w0 td")
  from ensureDir_trace[OF e] obtain mk where
    c1: "cwd w1 = cwd w" and t1: "trace w1 = trace w @ mk"
    and mk: "mk = [] \<and> r1 = Inr td
                \<or> (\<exists>r. mk = [\<lparr>op = MkdirSync td True, before = files w, raised = r\<rparr>]
                       \<and> (case r of None \<Rightarrow> r1 = Inr td | Some e \<Rightarrow> r1 = Inl e))"
    by (auto simp: w0_def)
  have mkshape: "mk = [] \<or> (\<exists>b r. mk = [\<lparr>op = MkdirSync td True, before = b, raised = r\<rparr>])"
    using mk by auto
  show ?thesis
  proof (cases r1)
    case (Inl err)
    with run ok e td have "res = Inl err" "w' = w1"
      by (auto simp: processImage_def Let_def w0_def)
    moreover from mk Inl have "mk = [\<lparr>op = MkdirSync td True, before = files w, raised = Some err\<rparr>]"
      by (auto split: option.splits)
    ultimately show ?thesis using t1
      by - (rule exI[of _ mk], rule exI[of _ "[]"], rule exI[of _ "[]"], simp add: new_events_def)
  next
    case (Inr d)
    with mk have mknone: "\<forall>ev\<in>set mk. raised ev = None" by (auto split: option.splits)
    define w2 where "w2 = console_log (''[processImage] Optimized path will be: '' @ out) w1"
    obtain r3 w3 where t: "processImage_try w2 orig out wd ht q = (r3, w3)"
      by (cases "processImage_try w2 orig out wd ht q")
    from processImage_try_trace[OF t] obtain tevs where
      c3: "cwd w3 = cwd w" and t3: "trace w3 = trace w @ mk @ tevs"
      and tr: "case r3 of
         Inr r \<Rightarrow>
           (\<exists>ul. map op tevs = [SharpMetadata orig, SharpToFile orig wd ht q out] @ ul @ [Stat out]
                 \<and> (ul = [] \<or> (\<exists>p. orig = Some p \<and> ul = [UnlinkSync p])))
           \<and> (\<forall>ev\<in>set tevs. raised ev = None)
           \<and> processedPath r = out \<and> existsSync w3 out
       | Inl e \<Rightarrow>
           (\<exists>pre lastev. tevs = pre @ [lastev] \<and> raised lastev = Some e
                 \<and> (\<forall>ev\<in>set pre. raised ev = None))"
      using c1 t1 by (auto simp: w2_def)
    show ?thesis
    proof (cases r3)
      case good: (Inr r)
      with run ok e Inr t td out orig wd ht q have "res = Inr r" "w' = w3"
        by (auto simp: processImage_def Let_def w0_def w2_def)
      with tr good t3 mknone mkshape show ?thesis
        by - (rule exI[of _ mk], rule exI[of _ tevs], rule exI[of _ "[]"],
              simp add: new_events_def)
    next
      case bad: (Inl err)
      obtain thrown w5 where c: "processImage_catch w3 orig out err = (thrown, w5)"
        by (cases "processImage_catch w3 orig out err")
      with run ok e Inr t bad td out orig wd ht q have r: "res = Inl thrown" "w' = w5"
        by (auto simp: processImage_def Let_def w0_def w2_def)
      from processImage_catch_all[OF c] obtain cl where
        t5: "trace w5 = trace w @ mk @ tevs @ cl"
        and cl: "thrown = err \<and> \<not> existsSync w5 out
         \<and> (cl = [] \<or> cl = [\<lparr>op = UnlinkSync out, before = files w3, raised = None\<rparr>])
       \<or> (\<exists>n. thrown = SystemError n (UnlinkSync out) \<and> existsSync w5 out
              \<and> cl = [\<lparr>op = UnlinkSync out, before = files w3, raised = Some thrown\<rparr>])"
        using t3 by auto
      from tr bad obtain pre lastev where
        pl: "tevs = pre @ [lastev]" "raised lastev = Some err" "\<forall>ev\<in>set pre. raised ev = None"
        by auto
      have ne: "new_events w w' = mk @ tevs @ cl" using t5 r by (simp add: new_events_def)
      from cl show ?thesis
      proof
        assume a: "thrown = err \<and> \<not> existsSync w5 out
         \<and> (cl = [] \<or> cl = [\<lparr>op = UnlinkSync out, before = files w3, raised = None\<rparr>])"
        with r pl mknone mkshape ne show ?thesis
          by - (rule exI[of _ mk], rule exI[of _ tevs], rule exI[of _ cl], auto)
      next
        assume a: "\<exists>n. thrown = SystemError n (UnlinkSync out) \<and> existsSync w5 out
              \<and> cl = [\<lparr>op = UnlinkSync out, before = files w3, raised = Some thrown\<rparr>]"
        with r pl mknone mkshape ne show ?thesis
          by - (rule exI[of _ mk], rule exI[of _ tevs], rule exI[of _ cl], auto)
      qed
    qed
  qed
qed

lemma processImage_run_ok:
  assumes run: "processImage w options = (Inr r, w')"
    and tb: "targetDir options = Some td" "baseName options = Some bn"
    and out: "out = path_join td (bn @ ''.webp'')"
    and orig: "orig = inputPath options"
    and wd: "wd = (case width options of None \<Rightarrow> 2000 | Some n \<Rightarrow> n)"
    and ht: "ht = (case height options of None \<Rightarrow> 2000 | Some n \<Rightarrow> n)"
    and q: "q = (case quality options of None \<Rightarrow> 85 | Some n \<Rightarrow> n)"
  shows "\<exists>mk tevs ul. new_events w w' = mk @ tevs
    \<and> (mk = [] \<or> (\<exists>b r. mk = [\<lparr>op = MkdirSync td True, before = b, raised = r\<rparr>]))
    \<and> (\<forall>ev\<in>set mk. raised ev = None)
    \<and> map op tevs = [SharpMetadata orig, SharpToFile orig wd ht q out] @ ul @ [Stat out]
    \<and> (ul = [] \<or> (\<exists>p. orig = Some p \<and> ul = [UnlinkSync p]))
    \<and> (\<forall>ev\<in>set tevs. raised ev = None)
    \<and> processedPath r = out \<and> existsSync w' out"
proof -
  have ok: "\<not> falsy (targetDir options)" "\<not> falsy (baseName options)"
    using run by (auto simp: processImage_def Let_def)
  have td': "td = show_opt (targetDir options)" using tb by simp
  have out': "out = path_join td (show_opt (baseName options) @ ''.webp'')"
    using tb out by simp
  from processImage_run[OF run ok td' out' orig wd ht q]
  obtain mk tevs cl ul where
    ne: "new_events w w' = mk @ tevs @ cl"
    and mk: "mk = [] \<or> (\<exists>b r. mk = [\<lparr>op = MkdirSync td True, before = b, raised = r\<rparr>])"
    and rest: "\<forall>ev\<in>set mk. raised ev = None" "cl = []"
      "\<forall>ev\<in>set tevs. raised ev = None" "processedPath r = out" "existsSync w' out"
    and u: "map op tevs = [SharpMetadata orig, SharpToFile orig wd ht q out] @ ul @ [Stat out]"
       "ul = [] \<or> (\<exists>p. orig = Some p \<and> ul = [UnlinkSync p])"
    unfolding sum.case by (elim exE conjE) (rule that; assumption)
  from ne rest(2) have ne': "new_events w w' = mk @ tevs" by simp
  show ?thesis
    by (rule exI[of _ mk], rule exI[of _ tevs], rule exI[of _ ul])
       (intro conjI ne' mk rest u)
qed

lemma processImage_run_failed:
  assumes run: "processImage w options = (Inl thrown, w')"
    and tb: "targetDir options = Some td" "baseName options = Some bn"
    and nonempty: "td \<noteq> []" "bn \<noteq> []"
    and out: "out = path_join td (bn @ ''.webp'')"
  shows "(\<exists>b. new_events w w' = [\<lparr>op = MkdirSync td True, before = b, raised = Some thrown\<rparr>])
    \<or> (\<exists>mk pre lastev cl e. new_events w w' = mk @ pre @ [lastev] @ cl
          \<and> (mk = [] \<or> (\<exists>b r. mk = [\<lparr>op = MkdirSync td True, before = b, raised = r\<rparr>]))
          \<and> (\<forall>ev\<in>set mk. raised ev = None)
          \<and> (\<forall>ev\<in>set pre. raised ev = None)
          \<and> raised lastev = Some e
          \<and> (thrown = e \<and> \<not> existsSync w' out
                \<and> (cl = [] \<or> (\<exists>b. cl = [\<lparr>op = UnlinkSync out, before = b, raised = None\<rparr>]))
              \<or> (\<exists>n b. thrown = SystemError n (UnlinkSync out) \<and> existsSync w' out
                     \<and> cl = [\<lparr>op = UnlinkSync out, before = b, raised = Some thrown\<rparr>])))"
proof -
  have ok: "\<not> falsy (targetDir options)" "\<not> falsy (baseName options)"
    using tb nonempty by simp_all
  have td': "td = show_opt (targetDir options)" using tb by simp
  have out': "out = path_join td (show_opt (baseName options) @ ''.webp'')"
    using tb out by simp
  from processImage_run[OF run ok td' out' refl refl refl refl]
  obtain mk tevs cl where
    ne: "new_events w w' = mk @ tevs @ cl"
    and mk: "mk = [] \<or> (\<exists>b r. mk = [\<lparr>op = MkdirSync td True, before = b, raised = r\<rparr>])"
    and d: "(tevs = [] \<and> cl = []
              \<and> (\<exists>b. mk = [\<lparr>op = MkdirSync td True, before = b, raised = Some thrown\<rparr>]))
           \<or> ((\<forall>ev\<in>set mk. raised ev = None)
               \<and> (\<exists>e pre lastev. tevs = pre @ [lastev] \<and> raised lastev = Some e
                     \<and> (\<forall>ev\<in>set pre. raised ev = None)
                     \<and> (thrown = e \<and> \<not> existsSync w' out
                          \<and> (cl = [] \<or> (\<exists>b. cl = [\<lparr>op = UnlinkSync out, before = b,
                                                      raised = None\<rparr>]))
                         \<or> (\<exists>n b. thrown = SystemError n (UnlinkSync out) \<and> existsSync w' out
                                \<and> cl = [\<lparr>op = UnlinkSync out, before = b,
                                          raised = Some thrown\<rparr>]))))"
    unfolding sum.case by (elim exE conjE) (rule that; assumption)
  from d show ?thesis
  proof
    assume "tevs = [] \<and> cl = []
              \<and> (\<exists>b. mk = [\<lparr>op = MkdirSync td True, before = b, raised = Some thrown\<rparr>])"
    with ne show ?thesis by auto
  next
    assume "(\<forall>ev\<in>set mk. raised ev = None)
               \<and> (\<exists>e pre lastev. tevs = pre @ [lastev] \<and> raised lastev = Some e
                     \<and> (\<forall>ev\<in>set pre. raised ev = None)
                     \<and> (thrown = e \<and> \<not> existsSync w' out
                          \<and> (cl = [] \<or> (\<exists>b. cl = [\<lparr>op = UnlinkSync out, before = b,
                                                      raised = None\<rparr>]))
                         \<or> (\<exists>n b. thrown = SystemError n (UnlinkSync out) \<and> existsSync w' out
                                \<and> cl = [\<lparr>op = UnlinkSync out, before = b,
                                          raised = Some thrown\<rparr>])))"
    then obtain e pre lastev where
      f: "\<forall>ev\<in>set mk. raised ev = None" "tevs = pre @ [lastev]" "raised lastev = Some e"
         "\<forall>ev\<in>set pre. raised ev = None"
         "thrown = e \<and> \<not> existsSync w' out
                          \<and> (cl = [] \<or> (\<exists>b. cl = [\<lparr>op = UnlinkSync out, before = b,
                                                      raised = None\<rparr>]))
                         \<or> (\<exists>n b. thrown = SystemError n (UnlinkSync out) \<and> existsSync w' out
                                \<and> cl = [\<lparr>op = UnlinkSync out, before = b,
                                          raised = Some thrown\<rparr>])"
      by (elim exE conjE) (rule that; assumption)
    from ne f(2) have ne': "new_events w w' = mk @ pre @ [lastev] @ cl" by simp
    show ?thesis
      by (rule disjI2, rule exI[of _ mk], rule exI[of _ pre], rule exI[of _ lastev],
          rule exI[of _ cl], rule exI[of _ e])
         (intro conjI ne' mk f(1) f(4) f(3) f(5))
  qed
qed

lemma processImage_truthy_args:
  assumes "processImage w options = (res, w')"
    and "(\<exists>r. res = Inr r) \<or> new_events w w' \<noteq> []"
  shows "\<exists>td bn. targetDir options = Some td \<and> baseName options = Some bn
           \<and> td \<noteq> [] \<and> bn \<noteq> []"
proof -
  have "\<not> (falsy (targetDir options) \<or> falsy (baseName options))"
    using assms by (auto simp: processImage_def Let_def new_events_def)
  then show ?thesis by (cases "targetDir options"; cases "baseName options") auto
qed

text \<open>
  Claim C5, as amended. On every successful call the processed image is written to
  \<^verbatim>\<open>path.join(targetDir, baseName + ".webp")\<close>, that is into \<^verbatim>\<open>targetDir\<close>, which
  need not be the directory of the original; that path is returned and exists when the call
  returns. The write comes before the deletion of the original: the calls of a successful
  run are, in this order, an optional \<^verbatim>\<open>mkdirSync\<close> of the target directory, the metadata
  read, the encode-and-write, the unlink of the original if it exists, the size read.
\<close>

theorem processImage_writes_before_delete:
  assumes "processImage w options = (Inr r, w')"
  shows "\<exists>td bn mk ul. targetDir options = Some td \<and> baseName options = Some bn
     \<and> processedPath r = path_join td (bn @ ''.webp'')
     \<and> existsSync w' (processedPath r)
     \<and> map op (new_events w w')
         = mk @ [SharpMetadata (inputPath options),
                 SharpToFile (inputPath options)
                   (case width options of None \<Rightarrow> 2000 | Some n \<Rightarrow> n)
                   (case height options of None \<Rightarrow> 2000 | Some n \<Rightarrow> n)
                   (case quality options of None \<Rightarrow> 85 | Some n \<Rightarrow> n)
                   (processedPath r)]
             @ ul @ [Stat (processedPath r)]
     \<and> (mk = [] \<or> mk = [MkdirSync td True])
     \<and> (ul = [] \<or> (\<exists>p. inputPath options = Some p \<and> ul = [UnlinkSync p]))"
proof -
  from processImage_truthy_args[OF assms] obtain td bn where
    tb: "targetDir options = Some td" "baseName options = Some bn" by blast
  from processImage_run_ok[OF assms tb refl refl refl refl refl]
  obtain mk tevs ul where
    ne: "new_events w w' = mk @ tevs"
    and mk: "mk = [] \<or> (\<exists>b r. mk = [\<lparr>op = MkdirSync td True, before = b, raised = r\<rparr>])"
    and ops: "map op tevs = [SharpMetadata (inputPath options),
                 SharpToFile (inputPath options)
                   (case width options of None \<Rightarrow> 2000 | Some n \<Rightarrow> n)
                   (case height options of None \<Rightarrow> 2000 | Some n \<Rightarrow> n)
                   (case quality options of None \<Rightarrow> 85 | Some n \<Rightarrow> n)
                   (path_join td (bn @ ''.webp''))] @ ul @ [Stat (path_join td (bn @ ''.webp''))]"
    and ul: "ul = [] \<or> (\<exists>p. inputPath options = Some p \<and> ul = [UnlinkSync p])"
    and pp: "processedPath r = path_join td (bn @ ''.webp'')"
    and ex: "existsSync w' (path_join td (bn @ ''.webp''))"
    by (elim exE conjE) (rule that; assumption)
  from mk have mk': "map op mk = [] \<or> map op mk = [MkdirSync td True]" by auto
  have all: "map op (new_events w w')
         = map op mk @ [SharpMetadata (inputPath options),
                 SharpToFile (inputPath options)
                   (case width options of None \<Rightarrow> 2000 | Some n \<Rightarrow> n)
                   (case height options of None \<Rightarrow> 2000 | Some n \<Rightarrow> n)
                   (case quality options of None \<Rightarrow> 85 | Some n \<Rightarrow> n)
                   (processedPath r)]
             @ ul @ [Stat (processedPath r)]"
    unfolding ne pp map_append ops by simp
  from ex pp have ex': "existsSync w' (processedPath r)" by simp
  show ?thesis
    by (rule exI[of _ td], rule exI[of _ bn], rule exI[of _ "map op mk"], rule exI[of _ ul])
       (intro conjI tb pp ex' all mk' ul)
qed

theorem processImage_writes_before_delete_witness:
  "processImage upload_world upload_options
     = (Inr upload_result, snd (processImage upload_world upload_options))
   \<and> map op (new_events upload_world (snd (processImage upload_world upload_options)))
       = [MkdirSync ''/photos'' True, SharpMetadata (Some ''/tmp/up/a.jpg''),
          SharpToFile (Some ''/tmp/up/a.jpg'') 2000 2000 85 ''/photos/a.webp'',
          UnlinkSync ''/tmp/up/a.jpg'', Stat ''/photos/a.webp'']
   \<and> processedPath upload_result = ''/photos/a.webp''
   \<and> existsSync (snd (processImage upload_world upload_options)) (processedPath upload_result)"
proof -
  have res: "fst (processImage upload_world upload_options) = Inr upload_result"
    by code_simp
  have run: "processImage upload_world upload_options
               = (Inr upload_result, snd (processImage upload_world upload_options))"
    using res by (cases "processImage upload_world upload_options") simp
  have ops: "map op (new_events upload_world (snd (processImage upload_world upload_options)))
       = [MkdirSync ''/photos'' True, SharpMetadata (Some ''/tmp/up/a.jpg''),
          SharpToFile (Some ''/tmp/up/a.jpg'') 2000 2000 85 ''/photos/a.webp'',
          UnlinkSync ''/tmp/up/a.jpg'', Stat ''/photos/a.webp'']"
    by code_simp
  have pp: "processedPath upload_result = ''/photos/a.webp''"
    by (simp add: upload_result_def)
  from processImage_writes_before_delete [OF run]
  have "existsSync (snd (processImage upload_world upload_options)) (processedPath upload_result)"
    by blast
  with run ops pp show ?thesis by blast
qed

text \<open>
  Claim C5 as stated fails: the output goes to \<^verbatim>\<open>targetDir\<close>, a parameter of its own,
  not to the directory of the input file. Here the input is in \<^verbatim>\<open>/tmp/up\<close> and the
  output lands in \<^verbatim>\<open>/photos\<close>.
\<close>

theorem processImage_target_directory_counterexample:
  "fst (processImage upload_world upload_options) = Inr upload_result
   \<and> inputPath upload_options = Some ''/tmp/up/a.jpg''
   \<and> path_dirname ''/tmp/up/a.jpg'' = ''/tmp/up''
   \<and> path_dirname (processedPath upload_result) = ''/photos''
   \<and> path_dirname (processedPath upload_result) \<noteq> path_dirname ''/tmp/up/a.jpg''"
proof -
  have res: "fst (processImage upload_world upload_options) = Inr upload_result"
    by code_simp
  have inp: "inputPath upload_options = Some ''/tmp/up/a.jpg''"
    by (simp add: upload_options_def)
  have d1: "path_dirname ''/tmp/up/a.jpg'' = ''/tmp/up''" by code_simp
  have d2: "path_dirname (processedPath upload_result) = ''/photos''" by code_simp
  from res inp d1 d2 show ?thesis by simp
qed

text \<open>
  Claim C2, as amended. When the metadata read, the encode-and-write or the size read of
  \<^verbatim>\<open>processImage\<close> throws an error, the \<^verbatim>\<open>catch\<close> unlinks the output file
  \<^verbatim>\<open>path.join(targetDir, baseName + ".webp")\<close> if it exists. If that unlink succeeds (or
  there was nothing to unlink) the output does not exist afterwards and the call throws the
  very error that was caught. If that unlink itself throws, the call throws the unlink's
  error instead and the output stays. Either way the call throws.
\<close>

theorem processImage_failure_cleanup:
  assumes run: "processImage w options = (res, w')"
    and ev: "ev \<in> set (new_events w w')"
    and kind: "(\<exists>i. op ev = SharpMetadata i) \<or> (\<exists>i a b c p. op ev = SharpToFile i a b c p)
         \<or> (\<exists>p. op ev = Stat p)"
    and raised: "raised ev = Some e"
  shows "\<exists>td bn. targetDir options = Some td \<and> baseName options = Some bn
     \<and> (res = Inl e \<and> \<not> existsSync w' (path_join td (bn @ ''.webp''))
        \<or> (\<exists>n. res = Inl (SystemError n (UnlinkSync (path_join td (bn @ ''.webp''))))
              \<and> existsSync w' (path_join td (bn @ ''.webp''))
              \<and> op (last (new_events w w')) = UnlinkSync (path_join td (bn @ ''.webp''))
              \<and> raised (last (new_events w w'))
                  = Some (SystemError n (UnlinkSync (path_join td (bn @ ''.webp''))))))"
proof -
  from ev have "new_events w w' \<noteq> []" by auto
  with processImage_truthy_args[OF run] obtain td bn where
    tb: "targetDir options = Some td" "baseName options = Some bn" and ne: "td \<noteq> []" "bn \<noteq> []"
    by blast
  define out where "out = path_join td (bn @ ''.webp'')"
  from kind have k: "\<forall>p b. op ev \<noteq> MkdirSync p b" "\<forall>p. op ev \<noteq> UnlinkSync p" by auto
  have "res = Inl e \<and> \<not> existsSync w' out
        \<or> (\<exists>n. res = Inl (SystemError n (UnlinkSync out)) \<and> existsSync w' out
              \<and> op (last (new_events w w')) = UnlinkSync out
              \<and> raised (last (new_events w w')) = Some (SystemError n (UnlinkSync out)))"
  proof (cases res)
    case (Inr r)
    from processImage_run_ok[OF run[unfolded Inr] tb refl refl refl refl refl]
    obtain mk tevs where "new_events w w' = mk @ tevs"
      "\<forall>ev\<in>set mk. raised ev = None" "\<forall>ev\<in>set tevs. raised ev = None"
      by (elim exE conjE) (rule that; assumption)
    with ev raised show ?thesis by auto
  next
    case (Inl thrown)
    from processImage_run_failed[OF run[unfolded Inl] tb ne out_def]
    show ?thesis
    proof
      assume "\<exists>b. new_events w w' = [\<lparr>op = MkdirSync td True, before = b, raised = Some thrown\<rparr>]"
      with ev k show ?thesis by auto
    next
      assume "\<exists>mk pre lastev cl e. new_events w w' = mk @ pre @ [lastev] @ cl
          \<and> (mk = [] \<or> (\<exists>b r. mk = [\<lparr>op = MkdirSync td True, before = b, raised = r\<rparr>]))
          \<and> (\<forall>ev\<in>set mk. raised ev = None)
          \<and> (\<forall>ev\<in>set pre. raised ev = None)
          \<and> raised lastev = Some e
          \<and> (thrown = e \<and> \<not> existsSync w' out
                \<and> (cl = [] \<or> (\<exists>b. cl = [\<lparr>op = UnlinkSync out, before = b, raised = None\<rparr>]))
              \<or> (\<exists>n b. thrown = SystemError n (UnlinkSync out) \<and> existsSync w' out
                     \<and> cl = [\<lparr>op = UnlinkSync out, before = b, raised = Some thrown\<rparr>]))"
      then obtain mk pre lastev cl e' where
        n: "new_events w w' = mk @ pre @ [lastev] @ cl"
        and none: "\<forall>ev\<in>set mk. raised ev = None" "\<forall>ev\<in>set pre. raised ev = None"
        and l: "raised lastev = Some e'"
        and fin: "thrown = e' \<and> \<not> existsSync w' out
                \<and> (cl = [] \<or> (\<exists>b. cl = [\<lparr>op = UnlinkSync out, before = b, raised = None\<rparr>]))
              \<or> (\<exists>n b. thrown = SystemError n (UnlinkSync out) \<and> existsSync w' out
                     \<and> cl = [\<lparr>op = UnlinkSync out, before = b, raised = Some thrown\<rparr>])"
        by (elim exE conjE) (rule that; assumption)
      have "ev \<in> set mk \<or> ev \<in> set pre \<or> ev = lastev \<or> ev \<in> set cl"
        using ev n by auto
      moreover have "ev \<notin> set mk" "ev \<notin> set pre" using none raised by auto
      moreover have "ev \<notin> set cl" using fin k by auto
      ultimately have "ev = lastev" by blast
      with l raised have ee: "e' = e" by simp
      from fin show ?thesis
      proof
        assume "thrown = e' \<and> \<not> existsSync w' out
                \<and> (cl = [] \<or> (\<exists>b. cl = [\<lparr>op = UnlinkSync out, before = b, raised = None\<rparr>]))"
        with ee Inl show ?thesis by simp
      next
        assume "\<exists>n b. thrown = SystemError n (UnlinkSync out) \<and> existsSync w' out
                     \<and> cl = [\<lparr>op = UnlinkSync out, before = b, raised = Some thrown\<rparr>]"
        with n Inl show ?thesis by auto
      qed
    qed
  qed
  with tb show ?thesis unfolding out_def by blast
qed

theorem processImage_failure_cleanup_witness:
  "new_events failing_world (snd (processImage failing_world upload_options)) ! 2
     \<in> set (new_events failing_world (snd (processImage failing_world upload_options)))
   \<and> op (new_events failing_world (snd (processImage failing_world upload_options)) ! 2)
       = SharpToFile (Some ''/tmp/up/a.jpg'') 2000 2000 85 ''/photos/a.webp''
   \<and> raised (new_events failing_world (snd (processImage failing_world upload_options)) ! 2)
       = Some (Error ''write failed'')
   \<and> map op (new_events failing_world (snd (processImage failing_world upload_options)))
       = [MkdirSync ''/photos'' True, SharpMetadata (Some ''/tmp/up/a.jpg''),
          SharpToFile (Some ''/tmp/up/a.jpg'') 2000 2000 85 ''/photos/a.webp'',
          UnlinkSync ''/photos/a.webp'']
   \<and> fst (processImage failing_world upload_options) = Inl (Error ''write failed'')
   \<and> \<not> existsSync (snd (processImage failing_world upload_options)) ''/photos/a.webp''
   \<and> (\<exists>td bn. targetDir upload_options = Some td \<and> baseName upload_options = Some bn
         \<and> (fst (processImage failing_world upload_options) = Inl (Error ''write failed'')
              \<and> \<not> existsSync (snd (processImage failing_world upload_options))
                    (path_join td (bn @ ''.webp''))
            \<or> (\<exists>n. fst (processImage failing_world upload_options)
                       = Inl (SystemError n (UnlinkSync (path_join td (bn @ ''.webp''))))
                  \<and> existsSync (snd (processImage failing_world upload_options))
                       (path_join td (bn @ ''.webp''))
                  \<and> op (last (new_events failing_world
                                 (snd (processImage failing_world upload_options))))
                      = UnlinkSync (path_join td (bn @ ''.webp''))
                  \<and> raised (last (new_events failing_world
                                     (snd (processImage failing_world upload_options))))
                      = Some (SystemError n (UnlinkSync (path_join td (bn @ ''.webp'')))))))"
proof -
  have run: "processImage failing_world upload_options
               = (fst (processImage failing_world upload_options),
                  snd (processImage failing_world upload_options))"
    by simp
  have ev: "new_events failing_world (snd (processImage failing_world upload_options)) ! 2
     \<in> set (new_events failing_world (snd (processImage failing_world upload_options)))"
    by code_simp
  have k: "op (new_events failing_world (snd (processImage failing_world upload_options)) ! 2)
       = SharpToFile (Some ''/tmp/up/a.jpg'') 2000 2000 85 ''/photos/a.webp''"
    by code_simp
  have r: "raised (new_events failing_world (snd (processImage failing_world upload_options)) ! 2)
       = Some (Error ''write failed'')"
    by code_simp
  have ops: "map op (new_events failing_world (snd (processImage failing_world upload_options)))
       = [MkdirSync ''/photos'' True, SharpMetadata (Some ''/tmp/up/a.jpg''),
          SharpToFile (Some ''/tmp/up/a.jpg'') 2000 2000 85 ''/photos/a.webp'',
          UnlinkSync ''/photos/a.webp'']"
    by code_simp
  have res: "fst (processImage failing_world upload_options) = Inl (Error ''write failed'')"
    by code_simp
  have gone: "\<not> existsSync (snd (processImage failing_world upload_options)) ''/photos/a.webp''"
    by code_simp
  have kind: "(\<exists>i. op (new_events failing_world
                        (snd (processImage failing_world upload_options)) ! 2) = SharpMetadata i)
      \<or> (\<exists>i a b c p. op (new_events failing_world
                        (snd (processImage failing_world upload_options)) ! 2)
                      = SharpToFile i a b c p)
      \<or> (\<exists>p. op (new_events failing_world
                        (snd (processImage failing_world upload_options)) ! 2) = Stat p)"
    using k by simp
  note t = processImage_failure_cleanup [OF run ev kind r]
  show ?thesis by (intro conjI ev k r ops res gone t)
qed

text \<open>
  Claim C2 as stated fails where the clean-up itself fails: the encoder throws
  \<^verbatim>\<open>Error("write failed")\<close> after leaving a partial output, the unlink of that output
  is refused, and the caller receives the unlink's error, not the encoder's; the partial
  output is still there.
\<close>

theorem processImage_cleanup_failure_counterexample:
  "op (new_events stuck_world (snd (processImage stuck_world upload_options)) ! 2)
       = SharpToFile (Some ''/tmp/up/a.jpg'') 2000 2000 85 ''/photos/a.webp''
   \<and> raised (new_events stuck_world (snd (processImage stuck_world upload_options)) ! 2)
       = Some (Error ''write failed'')
   \<and> path_join ''/photos'' (''a'' @ ''.webp'') = ''/photos/a.webp''
   \<and> fst (processImage stuck_world upload_options)
       = Inl (SystemError EACCES (UnlinkSync ''/photos/a.webp''))
   \<and> fst (processImage stuck_world upload_options) \<noteq> Inl (Error ''write failed'')
   \<and> existsSync (snd (processImage stuck_world upload_options)) ''/photos/a.webp''"
proof -
  have k: "op (new_events stuck_world (snd (processImage stuck_world upload_options)) ! 2)
       = SharpToFile (Some ''/tmp/up/a.jpg'') 2000 2000 85 ''/photos/a.webp''"
    by code_simp
  have r: "raised (new_events stuck_world (snd (processImage stuck_world upload_options)) ! 2)
       = Some (Error ''write failed'')"
    by code_simp
  have j: "path_join ''/photos'' (''a'' @ ''.webp'') = ''/photos/a.webp''" by code_simp
  have res: "fst (processImage stuck_world upload_options)
       = Inl (SystemError EACCES (UnlinkSync ''/photos/a.webp''))"
    by code_simp
  have still: "existsSync (snd (processImage stuck_world upload_options)) ''/photos/a.webp''"
    by code_simp
  from k r j res still show ?thesis by simp
qed

lemma processImage_rethrows:
  assumes run: "processImage w options = (res, w')"
    and ev: "ev \<in> set (new_events w w')" and raised: "raised ev \<noteq> None"
  shows "\<exists>e. res = Inl e \<and> (\<exists>ev'\<in>set (new_events w w'). raised ev' = Some e)"
proof -
  from ev have "new_events w w' \<noteq> []" by auto
  with processImage_truthy_args[OF run] obtain td bn where
    tb: "targetDir options = Some td" "baseName options = Some bn" and ne: "td \<noteq> []" "bn \<noteq> []"
    by blast
  define out where "out = path_join td (bn @ ''.webp'')"
  show ?thesis
  proof (cases res)
    case (Inr r)
    from processImage_run_ok[OF run[unfolded Inr] tb refl refl refl refl refl]
    obtain mk tevs where "new_events w w' = mk @ tevs"
      "\<forall>ev\<in>set mk. raised ev = None" "\<forall>ev\<in>set tevs. raised ev = None"
      by (elim exE conjE) (rule that; assumption)
    with ev raised show ?thesis by auto
  next
    case (Inl thrown)
    from processImage_run_failed[OF run[unfolded Inl] tb ne out_def]
    have "\<exists>ev'\<in>set (new_events w w'). raised ev' = Some thrown"
    proof
      assume "\<exists>b. new_events w w' = [\<lparr>op = MkdirSync td True, before = b, raised = Some thrown\<rparr>]"
      then show ?thesis by auto
    next
      assume "\<exists>mk pre lastev cl e. new_events w w' = mk @ pre @ [lastev] @ cl
          \<and> (mk = [] \<or> (\<exists>b r. mk = [\<lparr>op = MkdirSync td True, before = b, raised = r\<rparr>]))
          \<and> (\<forall>ev\<in>set mk. raised ev = None)
          \<and> (\<forall>ev\<in>set pre. raised ev = None)
          \<and> raised lastev = Some e
          \<and> (thrown = e \<and> \<not> existsSync w' out
                \<and> (cl = [] \<or> (\<exists>b. cl = [\<lparr>op = UnlinkSync out, before = b, raised = None\<rparr>]))
              \<or> (\<exists>n b. thrown = SystemError n (UnlinkSync out) \<and> existsSync w' out
                     \<and> cl = [\<lparr>op = UnlinkSync out, before = b, raised = Some thrown\<rparr>]))"
      then obtain mk pre lastev cl e' where
        n: "new_events w w' = mk @ pre @ [lastev] @ cl"
        and l: "raised lastev = Some e'"
        and fin: "thrown = e' \<and> \<not> existsSync w' out
                \<and> (cl = [] \<or> (\<exists>b. cl = [\<lparr>op = UnlinkSync out, before = b, raised = None\<rparr>]))
              \<or> (\<exists>n b. thrown = SystemError n (UnlinkSync out) \<and> existsSync w' out
                     \<and> cl = [\<lparr>op = UnlinkSync out, before = b, raised = Some thrown\<rparr>])"
        by (elim exE conjE) (rule that; assumption)
      from fin show ?thesis
      proof
        assume "thrown = e' \<and> \<not> existsSync w' out
                \<and> (cl = [] \<or> (\<exists>b. cl = [\<lparr>op = UnlinkSync out, before = b, raised = None\<rparr>]))"
        with n l show ?thesis by auto
      next
        assume "\<exists>n b. thrown = SystemError n (UnlinkSync out) \<and> existsSync w' out
                     \<and> cl = [\<lparr>op = UnlinkSync out, before = b, raised = Some thrown\<rparr>]"
        with n show ?thesis by auto
      qed
    qed
    with Inl show ?thesis by simp
  qed
qed

section \<open>Swallowed and rethrown failures\<close>

lemma ensure_iter_count:
  assumes "ensure_iter quiet recur dir (st, w) = (res, st', w')"
  shows "\<exists>evs. trace w' = trace w @ evs
    \<and> created st' + existing st' + failed st' = created st + existing st + failed st + 1
    \<and> failed st' = failed st + length (filter (\<lambda>ev. raised ev \<noteq> None) evs)
    \<and> length (filter (\<lambda>l. fst l = ERROR) (console w'))
        = length (filter (\<lambda>l. fst l = ERROR) (console w))
          + (if quiet then 0 else length (filter (\<lambda>ev. raised ev \<noteq> None) evs))"
proof (cases "existsSync w dir")
  case True
  with assms show ?thesis
    by (intro exI[of _ "[]"]) (auto simp: ensure_iter_def ensure_try_def)
next
  case False
  obtain r w1 where m: "mkdirSync w dir recur = (r, w1)" by (cases "mkdirSync w dir recur")
  note fr = mkdirSync_frame(2,6)[OF m]
  show ?thesis
  proof (cases r)
    case None
    with assms False m fr show ?thesis
      by (intro exI[of _ "[\<lparr>op = MkdirSync dir recur, before = files w, raised = None\<rparr>]"])
         (auto simp: ensure_iter_def ensure_try_def)
  next
    case (Some e)
    with assms False m fr show ?thesis
      by (intro exI[of _ "[\<lparr>op = MkdirSync dir recur, before = files w, raised = Some e\<rparr>]"])
         (auto simp: ensure_iter_def ensure_try_def)
  qed
qed

lemma ensure_loop_count:
  "ensure_loop quiet recur dirs (st, w) = (res, st', w') \<Longrightarrow>
   \<exists>evs. trace w' = trace w @ evs
    \<and> created st' + existing st' + failed st'
        = created st + existing st + failed st + length dirs
    \<and> failed st' = failed st + length (filter (\<lambda>ev. raised ev \<noteq> None) evs)
    \<and> length (filter (\<lambda>l. fst l = ERROR) (console w'))
        = length (filter (\<lambda>l. fst l = ERROR) (console w))
          + (if quiet then 0 else length (filter (\<lambda>ev. raised ev \<noteq> None) evs))"
proof (induction dirs arbitrary: st w)
  case Nil
  then show ?case by simp
next
  case (Cons dir dirs)
  obtain r st1 w1 where it: "ensure_iter quiet recur dir (st, w) = (r, st1, w1)"
    by (cases "ensure_iter quiet recur dir (st, w)")
  from ensure_iter_first(1)[OF it] Cons.prems it
  have rest: "ensure_loop quiet recur dirs (st1, w1) = (res, st', w')" by simp
  from ensure_iter_count[OF it] obtain evs1 where
    a: "trace w1 = trace w @ evs1"
       "created st1 + existing st1 + failed st1 = created st + existing st + failed st + 1"
       "failed st1 = failed st + length (filter (\<lambda>ev. raised ev \<noteq> None) evs1)"
       "length (filter (\<lambda>l. fst l = ERROR) (console w1))
        = length (filter (\<lambda>l. fst l = ERROR) (console w))
          + (if quiet then 0 else length (filter (\<lambda>ev. raised ev \<noteq> None) evs1))"
    by blast
  from Cons.IH[OF rest] obtain evs2 where
    b: "trace w' = trace w1 @ evs2"
       "created st' + existing st' + failed st'
          = created st1 + existing st1 + failed st1 + length dirs"
       "failed st' = failed st1 + length (filter (\<lambda>ev. raised ev \<noteq> None) evs2)"
       "length (filter (\<lambda>l. fst l = ERROR) (console w'))
        = length (filter (\<lambda>l. fst l = ERROR) (console w1))
          + (if quiet then 0 else length (filter (\<lambda>ev. raised ev \<noteq> None) evs2))"
    by blast
  from a b show ?case by (intro exI[of _ "evs1 @ evs2"]) auto
qed

lemma ensureDirectoriesExist_swallows:
  "\<exists>st w'. ensureDirectoriesExist w dirs opts = (Inr st, w')
     \<and> created st + existing st + failed st = length dirs
     \<and> failed st = length (filter (\<lambda>ev. raised ev \<noteq> None) (new_events w w'))
     \<and> length (filter (\<lambda>l. fst l = ERROR) (console w'))
         = length (filter (\<lambda>l. fst l = ERROR) (console w))
           + (if silent opts = Some True then 0 else failed st)"
proof -
  define q where "q = (case silent opts of None \<Rightarrow> False | Some b \<Rightarrow> b)"
  define r where "r = (case recursive opts of None \<Rightarrow> True | Some b \<Rightarrow> b)"
  define wa where "wa = (if \<not> q then console_log ''Ensuring required directories exist...'' w else w)"
  obtain res st wb where l: "ensure_loop q r dirs (\<lparr>created = 0, existing = 0, failed = 0\<rparr>, wa) = (res, st, wb)"
    by (cases "ensure_loop q r dirs (\<lparr>created = 0, existing = 0, failed = 0\<rparr>, wa)")
  from ensure_loop_first[OF l] have res: "res = Inr ()" by simp
  from ensure_loop_count[OF l] obtain evs where
    c: "trace wb = trace wa @ evs"
       "created st + existing st + failed st = length dirs"
       "failed st = length (filter (\<lambda>ev. raised ev \<noteq> None) evs)"
       "length (filter (\<lambda>l. fst l = ERROR) (console wb))
        = length (filter (\<lambda>l. fst l = ERROR) (console wa))
          + (if q then 0 else length (filter (\<lambda>ev. raised ev \<noteq> None) evs))"
    by auto
  define w' where "w' = (if \<not> q then console_log ''Directory check completed.'' wb else wb)"
  have run: "ensureDirectoriesExist w dirs opts = (Inr st, w')"
    using l res by (simp add: ensureDirectoriesExist_def Let_def q_def r_def wa_def w'_def)
  have tr: "new_events w w' = evs" using c(1) by (simp add: new_events_def w'_def wa_def)
  have qs: "q \<longleftrightarrow> silent opts = Some True"
    by (cases "silent opts") (auto simp: q_def)
  have "length (filter (\<lambda>l. fst l = ERROR) (console w'))
         = length (filter (\<lambda>l. fst l = ERROR) (console w))
           + (if silent opts = Some True then 0 else failed st)"
    using c(3,4) qs by (auto simp: w'_def wa_def)
  with run tr c(2,3) show ?thesis by blast
qed

lemma deleteFile_rethrows:
  assumes "deleteFile w v = (res, w')" and "ev \<in> set (new_events w w')"
    and "raised ev = Some e"
  shows "res = Inl e"
proof (cases "\<exists>p. v = JStr p \<and> p \<noteq> [] \<and> existsSync w p")
  case False
  with assms(1) have "w' = w"
    by (cases v) (auto simp: deleteFile_def deleteFile_try_def split: if_splits)
  with assms(2) show ?thesis by (simp add: new_events_def)
next
  case True
  then obtain p where p: "v = JStr p" "p \<noteq> []" "existsSync w p" by blast
  obtain r w1 where u: "unlink_as (Unlink p) w p = (r, w1)" by (cases "unlink_as (Unlink p) w p")
  from p u assms(1) have "trace w' = trace w1" "res = (case r of None \<Rightarrow> Inr True | Some x \<Rightarrow> Inl x)"
    by (cases r; auto simp: deleteFile_def deleteFile_try_def unlink_def)+
  with unlink_as_frame(6)[OF u] assms(2,3) show ?thesis
    by (auto simp: new_events_def)
qed

lemma deleteFileAndEmptyParent_try_rethrows:
  assumes "deleteFileAndEmptyParent_try w p = (res, w')"
    and "ev \<in> set (new_events w w')" and "raised ev = Some e"
  shows "res = Inl e"
proof (cases "existsSync w p")
  case False
  with assms show ?thesis by (simp add: deleteFileAndEmptyParent_try_def new_events_def)
next
  case True
  obtain r1 w1 where u: "unlink w p = (r1, w1)" by (cases "unlink w p")
  note u1 = unlink_as_all[OF u[unfolded unlink_def]]
  show ?thesis
  proof (cases r1)
    case (Some x)
    with True u assms(1) have "trace w' = trace w1" "res = Inl x"
      by (auto simp: deleteFileAndEmptyParent_try_def)
    with u1 Some assms(2,3) show ?thesis by (auto simp: new_events_def)
  next
    case None
    define w3 where "w3 = console_log (''[deleteFileAndEmptyParent] Checking parent directory: ''
                                      @ path_dirname p)
         (console_log (''[deleteFileAndEmptyParent] File deleted successfully: '' @ p) w1)"
    obtain r4 w4 where rd: "readdir w3 (path_dirname p) = (r4, w4)"
      by (cases "readdir w3 (path_dirname p)")
    note r1 = readdir_all[OF rd]
    have t3: "trace w3 = trace w @ [\<lparr>op = Unlink p, before = files w, raised = None\<rparr>]"
      using u1 None by (simp add: w3_def)
    show ?thesis
    proof (cases r4)
      case (Inl x)
      with True u None rd assms(1) have "trace w' = trace w4" "res = Inl x"
        by (auto simp: deleteFileAndEmptyParent_try_def Let_def w3_def)
      with r1 t3 Inl assms(2,3) show ?thesis by (auto simp: new_events_def)
    next
      case (Inr remaining)
      define w6 where "w6 = console_log (''[deleteFileAndEmptyParent] Remaining files in directory: ''
                                           @ join_with '','' remaining)
          (console_log (''[deleteFileAndEmptyParent] Directory contents before deletion: ''
                                 @ join_with '','' remaining) w4)"
      have t6: "trace w6 = trace w @ [\<lparr>op = Unlink p, before = files w, raised = None\<rparr>,
           \<lparr>op = Readdir (path_dirname p), before = files w3, raised = None\<rparr>]"
        using r1 t3 Inr by (simp add: w6_def)
      show ?thesis
      proof (cases "remaining = []")
        case False
        with True u None rd Inr assms(1) have "w' = w6"
          by (auto simp: deleteFileAndEmptyParent_try_def Let_def w3_def w6_def)
        with t6 assms(2,3) show ?thesis by (auto simp: new_events_def)
      next
        case empty: True
        obtain r7 w7 where rm: "rmdir w6 (path_dirname p) = (r7, w7)"
          by (cases "rmdir w6 (path_dirname p)")
        note m1 = rmdir_all[OF rm]
        from True u None rd Inr empty rm assms(1)
        have "trace w' = trace w7" "res = (case r7 of None \<Rightarrow> Inr () | Some x \<Rightarrow> Inl x)"
          by (cases r7; auto simp: deleteFileAndEmptyParent_try_def Let_def w3_def w6_def)+
        with m1 t6 assms(2,3) show ?thesis by (auto simp: new_events_def)
      qed
    qed
  qed
qed

lemma deleteFileAndEmptyParent_rethrows:
  assumes "deleteFileAndEmptyParent w v = (res, w')"
    and "ev \<in> set (new_events w w')" and "raised ev = Some e"
  shows "res = Inl e"
proof (cases "truthy v \<and> is_string v")
  case False
  with assms show ?thesis by (auto simp: deleteFileAndEmptyParent_def new_events_def)
next
  case True
  then obtain p where v: "v = JStr p" by (cases v) auto
  obtain r1 w1 where t: "deleteFileAndEmptyParent_try w p = (r1, w1)"
    by (cases "deleteFileAndEmptyParent_try w p")
  with True v assms(1) have "trace w' = trace w1" "res = r1"
    by (cases r1; auto simp: deleteFileAndEmptyParent_def)+
  then have "new_events w w' = new_events w w1" "res = r1" by (simp_all add: new_events_def)
  with assms(2) deleteFileAndEmptyParent_try_rethrows[OF t _ assms(3)] show ?thesis by simp
qed

text \<open>
  Claim C6, as amended. \<^verbatim>\<open>ensureDirectoriesExist\<close> swallows every failure: for every
  list of paths and every options it returns its statistics and never throws, each path is
  counted once, the failed count is the number of \<^verbatim>\<open>mkdirSync\<close> calls that threw, and
  each failure is logged with \<^verbatim>\<open>console.error\<close> unless \<^verbatim>\<open>silent\<close> is true (then nothing
  is logged). \<^verbatim>\<open>processImage\<close>, \<^verbatim>\<open>deleteFile\<close> and \<^verbatim>\<open>deleteFileAndEmptyParent\<close>
  rethrow: whenever one of their library calls fails, the call throws an error raised by
  one of its library calls (for the two deletion helpers: that very error).
\<close>

theorem failures_swallowed_or_rethrown:
  "(\<exists>st w'. ensureDirectoriesExist w dirs opts = (Inr st, w')
     \<and> created st + existing st + failed st = length dirs
     \<and> failed st = length (filter (\<lambda>ev. raised ev \<noteq> None) (new_events w w'))
     \<and> length (filter (\<lambda>l. fst l = ERROR) (console w'))
         = length (filter (\<lambda>l. fst l = ERROR) (console w))
           + (if silent opts = Some True then 0 else failed st))
   \<and> (processImage w io = (res1, w1) \<and> ev1 \<in> set (new_events w w1) \<and> raised ev1 \<noteq> None
        \<longrightarrow> (\<exists>e. res1 = Inl e \<and> (\<exists>ev'\<in>set (new_events w w1). raised ev' = Some e)))
   \<and> (deleteFile w v = (res2, w2) \<and> ev2 \<in> set (new_events w w2) \<and> raised ev2 = Some e2
        \<longrightarrow> res2 = Inl e2)
   \<and> (deleteFileAndEmptyParent w v = (res3, w3) \<and> ev3 \<in> set (new_events w w3)
        \<and> raised ev3 = Some e3
        \<longrightarrow> res3 = Inl e3)"
  using ensureDirectoriesExist_swallows[of w dirs opts]
        processImage_rethrows[of w io res1 w1 ev1]
        deleteFile_rethrows[of w v res2 w2 ev2 e2]
        deleteFileAndEmptyParent_rethrows[of w v res3 w3 ev3 e3]
  by blast

theorem failures_swallowed_or_rethrown_witness:
  "fst (ensureDirectoriesExist readonly_world sample_dirs default_options)
     = Inr \<lparr>created = 0, existing = 1, failed = 1\<rparr>
   \<and> filter (\<lambda>l. fst l = ERROR)
        (console (snd (ensureDirectoriesExist readonly_world sample_dirs default_options)))
       = [(ERROR, ''Failed to create directory: /data/a'',
           Some (SystemError EACCES (MkdirSync ''/data/a'' True)))]
   \<and> (\<exists>st w'. ensureDirectoriesExist readonly_world sample_dirs default_options = (Inr st, w')
         \<and> created st + existing st + failed st = length sample_dirs
         \<and> failed st = length (filter (\<lambda>ev. raised ev \<noteq> None) (new_events readonly_world w'))
         \<and> length (filter (\<lambda>l. fst l = ERROR) (console w'))
             = length (filter (\<lambda>l. fst l = ERROR) (console readonly_world))
               + (if silent default_options = Some True then 0 else failed st))
   \<and> new_events failing_world (snd (processImage failing_world upload_options)) ! 2
       \<in> set (new_events failing_world (snd (processImage failing_world upload_options)))
   \<and> raised (new_events failing_world (snd (processImage failing_world upload_options)) ! 2)
       \<noteq> None
   \<and> fst (processImage failing_world upload_options) = Inl (Error ''write failed'')
   \<and> (\<exists>e. fst (processImage failing_world upload_options) = Inl e
         \<and> (\<exists>ev'\<in>set (new_events failing_world (snd (processImage failing_world upload_options))).
               raised ev' = Some e))
   \<and> new_events locked_world (snd (deleteFile locked_world (JStr ''/tmp/up/b.jpg''))) ! 0
       \<in> set (new_events locked_world (snd (deleteFile locked_world (JStr ''/tmp/up/b.jpg''))))
   \<and> raised (new_events locked_world (snd (deleteFile locked_world (JStr ''/tmp/up/b.jpg''))) ! 0)
       = Some (SystemError EACCES (Unlink ''/tmp/up/b.jpg''))
   \<and> fst (deleteFile locked_world (JStr ''/tmp/up/b.jpg''))
       = Inl (SystemError EACCES (Unlink ''/tmp/up/b.jpg''))
   \<and> new_events locked_world
         (snd (deleteFileAndEmptyParent locked_world (JStr ''/tmp/up/b.jpg''))) ! 0
       \<in> set (new_events locked_world
                (snd (deleteFileAndEmptyParent locked_world (JStr ''/tmp/up/b.jpg''))))
   \<and> raised (new_events locked_world
                (snd (deleteFileAndEmptyParent locked_world (JStr ''/tmp/up/b.jpg''))) ! 0)
       = Some (SystemError EACCES (Unlink ''/tmp/up/b.jpg''))
   \<and> fst (deleteFileAndEmptyParent locked_world (JStr ''/tmp/up/b.jpg''))
       = Inl (SystemError EACCES (Unlink ''/tmp/up/b.jpg''))"
proof -
  have s1: "fst (ensureDirectoriesExist readonly_world sample_dirs default_options)
     = Inr \<lparr>created = 0, existing = 1, failed = 1\<rparr>"
    by code_simp
  have s2: "filter (\<lambda>l. fst l = ERROR)
        (console (snd (ensureDirectoriesExist readonly_world sample_dirs default_options)))
       = [(ERROR, ''Failed to create directory: /data/a'',
           Some (SystemError EACCES (MkdirSync ''/data/a'' True)))]"
    by code_simp
  have p1: "new_events failing_world (snd (processImage failing_world upload_options)) ! 2
       \<in> set (new_events failing_world (snd (processImage failing_world upload_options)))"
    by code_simp
  have p2: "raised (new_events failing_world (snd (processImage failing_world upload_options)) ! 2)
       = Some (Error ''write failed'')"
    by code_simp
  then have p2': "raised (new_events failing_world
                     (snd (processImage failing_world upload_options)) ! 2) \<noteq> None"
    by simp
  have p3: "fst (processImage failing_world upload_options) = Inl (Error ''write failed'')"
    by code_simp
  have d1: "new_events locked_world (snd (deleteFile locked_world (JStr ''/tmp/up/b.jpg''))) ! 0
       \<in> set (new_events locked_world (snd (deleteFile locked_world (JStr ''/tmp/up/b.jpg''))))"
    by code_simp
  have d2: "raised (new_events locked_world
                (snd (deleteFile locked_world (JStr ''/tmp/up/b.jpg''))) ! 0)
       = Some (SystemError EACCES (Unlink ''/tmp/up/b.jpg''))"
    by code_simp
  have f1: "new_events locked_world
         (snd (deleteFileAndEmptyParent locked_world (JStr ''/tmp/up/b.jpg''))) ! 0
       \<in> set (new_events locked_world
                (snd (deleteFileAndEmptyParent locked_world (JStr ''/tmp/up/b.jpg''))))"
    by code_simp
  have f2: "raised (new_events locked_world
                (snd (deleteFileAndEmptyParent locked_world (JStr ''/tmp/up/b.jpg''))) ! 0)
       = Some (SystemError EACCES (Unlink ''/tmp/up/b.jpg''))"
    by code_simp
  note a = failures_swallowed_or_rethrown
    [of readonly_world sample_dirs default_options upload_options
        "fst (processImage readonly_world upload_options)"
        "snd (processImage readonly_world upload_options)"]
  from a have s3: "\<exists>st w'. ensureDirectoriesExist readonly_world sample_dirs default_options
           = (Inr st, w')
         \<and> created st + existing st + failed st = length sample_dirs
         \<and> failed st = length (filter (\<lambda>ev. raised ev \<noteq> None) (new_events readonly_world w'))
         \<and> length (filter (\<lambda>l. fst l = ERROR) (console w'))
             = length (filter (\<lambda>l. fst l = ERROR) (console readonly_world))
               + (if silent default_options = Some True then 0 else failed st)"
    by (rule conjunct1)
  from failures_swallowed_or_rethrown
    [of failing_world sample_dirs default_options upload_options
        "fst (processImage failing_world upload_options)"
        "snd (processImage failing_world upload_options)"
        "new_events failing_world (snd (processImage failing_world upload_options)) ! 2"] p1 p2'
  have p4: "\<exists>e. fst (processImage failing_world upload_options) = Inl e
         \<and> (\<exists>ev'\<in>set (new_events failing_world (snd (processImage failing_world upload_options))).
               raised ev' = Some e)"
    by simp
  from failures_swallowed_or_rethrown
    [of locked_world sample_dirs default_options upload_options _ _ _
        "JStr ''/tmp/up/b.jpg''"
        "fst (deleteFile locked_world (JStr ''/tmp/up/b.jpg''))"
        "snd (deleteFile locked_world (JStr ''/tmp/up/b.jpg''))"
        "new_events locked_world (snd (deleteFile locked_world (JStr ''/tmp/up/b.jpg''))) ! 0"
        "SystemError EACCES (Unlink ''/tmp/up/b.jpg'')"
        "fst (deleteFileAndEmptyParent locked_world (JStr ''/tmp/up/b.jpg''))"
        "snd (deleteFileAndEmptyParent locked_world (JStr ''/tmp/up/b.jpg''))"
        "new_events locked_world
           (snd (deleteFileAndEmptyParent locked_world (JStr ''/tmp/up/b.jpg''))) ! 0"
        "SystemError EACCES (Unlink ''/tmp/up/b.jpg'')"]
       d1 d2 f1 f2
  have d3: "fst (deleteFile locked_world (JStr ''/tmp/up/b.jpg''))
              = Inl (SystemError EACCES (Unlink ''/tmp/up/b.jpg''))"
    and f3: "fst (deleteFileAndEmptyParent locked_world (JStr ''/tmp/up/b.jpg''))
              = Inl (SystemError EACCES (Unlink ''/tmp/up/b.jpg''))"
    by simp_all
  show ?thesis by (intro conjI s1 s2 s3 p1 p2' p3 p4 d1 d2 d3 f1 f2 f3)
qed

text \<open>
  Claim C6 as stated fails in two places. With \<^verbatim>\<open>silent: true\<close> a failing \<^verbatim>\<open>mkdirSync\<close>
  is counted but not logged: the console stays empty. And not every file-deletion operation
  rethrows: \<^verbatim>\<open>deleteFiles\<close> swallows the failure of an unlink and returns normally.
\<close>

theorem silent_failure_not_logged_counterexample:
  "silent silent_options = Some True
   \<and> fst (ensureDirectoriesExist readonly_world [''/data''] silent_options)
       = Inr \<lparr>created = 0, existing = 0, failed = 1\<rparr>
   \<and> map (\<lambda>ev. (op ev, raised ev))
        (new_events readonly_world
           (snd (ensureDirectoriesExist readonly_world [''/data''] silent_options)))
       = [(MkdirSync ''/data'' True, Some (SystemError EACCES (MkdirSync ''/data'' True)))]
   \<and> console (snd (ensureDirectoriesExist readonly_world [''/data''] silent_options)) = []
   \<and> map (\<lambda>ev. (op ev, raised ev))
        (new_events locked_world (snd (deleteFiles locked_world (JStr ''/tmp/up/b.jpg''))))
       = [(Unlink ''/tmp/up/b.jpg'', Some (SystemError EACCES (Unlink ''/tmp/up/b.jpg'')))]
   \<and> fst (deleteFiles locked_world (JStr ''/tmp/up/b.jpg'')) = Inr ()"
proof -
  have a: "silent silent_options = Some True" by (simp add: silent_options_def)
  have b: "fst (ensureDirectoriesExist readonly_world [''/data''] silent_options)
       = Inr \<lparr>created = 0, existing = 0, failed = 1\<rparr>"
    by code_simp
  have c: "map (\<lambda>ev. (op ev, raised ev))
        (new_events readonly_world
           (snd (ensureDirectoriesExist readonly_world [''/data''] silent_options)))
       = [(MkdirSync ''/data'' True, Some (SystemError EACCES (MkdirSync ''/data'' True)))]"
    by code_simp
  have d: "console (snd (ensureDirectoriesExist readonly_world [''/data''] silent_options)) = []"
    by code_simp
  have e: "map (\<lambda>ev. (op ev, raised ev))
        (new_events locked_world (snd (deleteFiles locked_world (JStr ''/tmp/up/b.jpg''))))
       = [(Unlink ''/tmp/up/b.jpg'', Some (SystemError EACCES (Unlink ''/tmp/up/b.jpg'')))]"
    by code_simp
  have f: "fst (deleteFiles locked_world (JStr ''/tmp/up/b.jpg'')) = Inr ()"
    by code_simp
  show ?thesis by (intro conjI a b c d e f)
qed

end
